theory Spec2Isabelle
  imports Main "HOL-Library.Multiset"
begin

section \<open>Package triple: objects and triples\<close>

subsection \<open>Errors\<close>

text \<open>
  Every Go error of the two packages is a value of one datatype, by class, carrying the message
  that \<open>fmt.Errorf\<close> builds. A run-time panic (nil dereference, slice bounds) is the extra
  constructor \<open>Panic\<close>, so that a panicking path is a branch of the model as well.
\<close>

datatype error =
    TypeMismatchError string
  | ConstructionError string
  | SplitError string
  | SubParseError string
  | ExternalError string
  | Panic string

fun Error :: "error \<Rightarrow> string" where
  "Error (TypeMismatchError m) = m"
| "Error (ConstructionError m) = m"
| "Error (SplitError m) = m"
| "Error (SubParseError m) = m"
| "Error (ExternalError m) = m"
| "Error (Panic m) = m"

fun isTypeMismatch :: "error + 'a \<Rightarrow> bool" where
  "isTypeMismatch (Inl (TypeMismatchError m)) = True"
| "isTypeMismatch r = False"

fun succeeds :: "error + 'a \<Rightarrow> bool" where
  "succeeds (Inr v) = True"
| "succeeds (Inl e) = False"

definition ebind :: "error + 'a \<Rightarrow> ('a \<Rightarrow> error + 'b) \<Rightarrow> error + 'b" where
  "ebind r f = (case r of Inl e \<Rightarrow> Inl e | Inr v \<Rightarrow> f v)"

subsection \<open>The collaborating packages node, predicate and literal\<close>

type_synonym time = int

datatype Type = Immutable | Temporal

text \<open>
  Modelled from the spec: package predicate is not among the sources. A predicate is a relation
  identifier with an ID and a type tag, Immutable or Temporal; a Temporal one carries a time
  anchor (an instant, here an integer time stamp).
\<close>

datatype Predicate = ImmutableP string | TemporalP string time

fun predicate_ID :: "Predicate \<Rightarrow> string" where
  "predicate_ID (ImmutableP i) = i"
| "predicate_ID (TemporalP i ta) = i"

fun predicate_Type :: "Predicate \<Rightarrow> Type" where
  "predicate_Type (ImmutableP i) = Immutable"
| "predicate_Type (TemporalP i ta) = Temporal"

fun predicate_TimeAnchor :: "Predicate \<Rightarrow> time option" where
  "predicate_TimeAnchor (ImmutableP i) = None"
| "predicate_TimeAnchor (TemporalP i ta) = Some ta"

text \<open>
  The operations of the packages node, predicate and literal that package triple calls are
  parameters of the model: the canonical string forms, the parsers and the two predicate
  constructors (which may fail). Nodes and literals are opaque, the type variables \<open>'n\<close> and
  \<open>'l\<close>. A call of a collaborator returns a value or an error; a panic inside a collaborator
  is outside the model.

  The literal builder is passed to the parsing functions explicitly, as in the source. It is an
  interface, represented by its \<open>Parse\<close> method, and any implementation may be passed: beside
  a nil error its result is a pointer that may be nil (\<open>Inr None\<close>), which \<open>ParseObject\<close>
  hands on unchecked.
\<close>

record ('n, 'l) ext =
  node_String :: "'n \<Rightarrow> string"
  node_Parse :: "string \<Rightarrow> error + 'n"
  predicate_String :: "Predicate \<Rightarrow> string"
  predicate_Parse :: "string \<Rightarrow> error + Predicate"
  literal_String :: "'l \<Rightarrow> string"
  predicate_NewImmutable :: "string \<Rightarrow> error + Predicate"
  predicate_NewTemporal :: "string \<Rightarrow> time \<Rightarrow> error + Predicate"

type_synonym 'l Builder = "string \<Rightarrow> error + 'l option"

subsection \<open>Object\<close>

text \<open>The three fields are Go pointers: \<open>None\<close> is nil.\<close>

record ('n, 'l) Object =
  o_n :: "'n option"
  o_p :: "Predicate option"
  o_l :: "'l option"

definition Object_String :: "('n, 'l) ext \<Rightarrow> ('n, 'l) Object \<Rightarrow> string" where
  "Object_String X ob =
     (case o_n ob of Some v \<Rightarrow> node_String X v
      | None \<Rightarrow>
     (case o_l ob of Some v \<Rightarrow> literal_String X v
      | None \<Rightarrow>
     (case o_p ob of Some v \<Rightarrow> predicate_String X v
      | None \<Rightarrow> ''@@@INVALID_OBJECT@@@'')))"

definition Object_Node :: "('n, 'l) ext \<Rightarrow> ('n, 'l) Object \<Rightarrow> error + 'n" where
  "Object_Node X ob =
     (case o_n ob of
        None \<Rightarrow> Inl (TypeMismatchError
                  (''triple.Literal does not box a node in '' @ Object_String X ob))
      | Some v \<Rightarrow> Inr v)"

definition Object_Predicate :: "('n, 'l) ext \<Rightarrow> ('n, 'l) Object \<Rightarrow> error + Predicate" where
  "Object_Predicate X ob =
     (case o_p ob of
        None \<Rightarrow> Inl (TypeMismatchError
                  (''triple.Literal does not box a predicate in '' @ Object_String X ob))
      | Some v \<Rightarrow> Inr v)"

definition Object_Literal :: "('n, 'l) ext \<Rightarrow> ('n, 'l) Object \<Rightarrow> error + 'l" where
  "Object_Literal X ob =
     (case o_l ob of
        None \<Rightarrow> Inl (TypeMismatchError
                  (''triple.Literal does not box a literal in '' @ Object_String X ob))
      | Some v \<Rightarrow> Inr v)"

definition NewNodeObject :: "'n option \<Rightarrow> ('n, 'l) Object" where
  "NewNodeObject v = \<lparr>o_n = v, o_p = None, o_l = None\<rparr>"

definition NewPredicateObject :: "Predicate option \<Rightarrow> ('n, 'l) Object" where
  "NewPredicateObject v = \<lparr>o_n = None, o_p = v, o_l = None\<rparr>"

definition NewLiteralObject :: "'l option \<Rightarrow> ('n, 'l) Object" where
  "NewLiteralObject v = \<lparr>o_n = None, o_p = None, o_l = v\<rparr>"

text \<open>The invariant of the spec: exactly one of the three fields is present.\<close>

definition exactly_one_of :: "('n, 'l) Object \<Rightarrow> bool" where
  "exactly_one_of ob \<longleftrightarrow>
     (o_n ob \<noteq> None \<and> o_p ob = None \<and> o_l ob = None) \<or>
     (o_n ob = None \<and> o_p ob \<noteq> None \<and> o_l ob = None) \<or>
     (o_n ob = None \<and> o_p ob = None \<and> o_l ob \<noteq> None)"

subsection \<open>Formatting and encoding (standard library)\<close>

text \<open>
  \<open>fmt\<close> prints a nil pointer whose type has a \<open>String\<close> method as \<open><nil>\<close>, with both
  \<open>%s\<close> and \<open>%v\<close>.
\<close>

definition fmt_ptr :: "('a \<Rightarrow> string) \<Rightarrow> 'a option \<Rightarrow> string" where
  "fmt_ptr f v = (case v of None \<Rightarrow> ''<nil>'' | Some x \<Rightarrow> f x)"

definition tab :: char where
  "tab = CHR 0x09"

definition dquote :: char where
  "dquote = CHR 0x22"

fun strings_Join :: "string list \<Rightarrow> string \<Rightarrow> string" where
  "strings_Join [] sep = []"
| "strings_Join [a] sep = a"
| "strings_Join (a # b # rest) sep = a @ sep @ strings_Join (b # rest) sep"

text \<open>\<open>base64.StdEncoding\<close>: the standard alphabet, padded with \<open>=\<close>. A Go string is its bytes.\<close>

definition encodeStd :: string where
  "encodeStd = ''ABCDEFGHIJKLMNOPQRSTUVWXYZabcdefghijklmnopqrstuvwxyz0123456789+/''"

definition enc :: "nat \<Rightarrow> char" where
  "enc v = encodeStd ! (v mod 64)"

fun EncodeToString :: "string \<Rightarrow> string" where
  "EncodeToString [] = []"
| "EncodeToString [a] =
     (let val = of_char a * 65536
      in [enc (val div 262144), enc (val div 4096), CHR ''='', CHR ''=''])"
| "EncodeToString [a, b] =
     (let val = of_char a * 65536 + of_char b * 256
      in [enc (val div 262144), enc (val div 4096), enc (val div 64), CHR ''=''])"
| "EncodeToString (a # b # c # rest) =
     (let val = of_char a * 65536 + of_char b * 256 + of_char c
      in [enc (val div 262144), enc (val div 4096), enc (val div 64), enc val]
         @ EncodeToString rest)"

definition Object_GUID :: "('n, 'l) ext \<Rightarrow> ('n, 'l) Object \<Rightarrow> string" where
  "Object_GUID X ob =
     (let fo0 = ''@@@INVALID_OBJECT@@@'';
          fo1 = (if o_n ob \<noteq> None then ''node'' else fo0);
          fo2 = (if o_l ob \<noteq> None then ''literal'' else fo1);
          fo3 = (if o_p ob \<noteq> None then ''predicate'' else fo2)
      in EncodeToString (strings_Join [fo3, Object_String X ob] '':''))"

subsection \<open>Triple\<close>

record ('n, 'l) Triple =
  t_s :: "'n option"
  t_p :: "Predicate option"
  t_o :: "('n, 'l) Object option"

definition NewTriple ::
  "('n, 'l) ext \<Rightarrow> 'n option \<Rightarrow> Predicate option \<Rightarrow> ('n, 'l) Object option
    \<Rightarrow> error + ('n, 'l) Triple" where
  "NewTriple X sv pv ov =
     (if sv = None \<or> pv = None \<or> ov = None
      then Inl (ConstructionError
             (''triple.NewTriple cannot create triples from nil components in <''
              @ fmt_ptr (node_String X) sv @ '' '' @ fmt_ptr (predicate_String X) pv @ '' ''
              @ fmt_ptr (Object_String X) ov @ ''>''))
      else Inr \<lparr>t_s = sv, t_p = pv, t_o = ov\<rparr>)"

definition Triple_S :: "('n, 'l) Triple \<Rightarrow> 'n option" where
  "Triple_S t = t_s t"

definition Triple_P :: "('n, 'l) Triple \<Rightarrow> Predicate option" where
  "Triple_P t = t_p t"

definition Triple_O :: "('n, 'l) Triple \<Rightarrow> ('n, 'l) Object option" where
  "Triple_O t = t_o t"

definition Triple_String :: "('n, 'l) ext \<Rightarrow> ('n, 'l) Triple \<Rightarrow> string" where
  "Triple_String X t =
     fmt_ptr (node_String X) (t_s t) @ [tab] @ fmt_ptr (predicate_String X) (t_p t) @ [tab]
     @ fmt_ptr (Object_String X) (t_o t)"


text \<open>The pointer a Go call returns beside its error: nil when the call failed.\<close>

definition ptr :: "error + 'a \<Rightarrow> 'a option" where
  "ptr r = (case r of Inl e \<Rightarrow> None | Inr v \<Rightarrow> Some v)"

subsection \<open>Parsing\<close>

definition ParseObject ::
  "('n, 'l) ext \<Rightarrow> string \<Rightarrow> 'l Builder \<Rightarrow> error + ('n, 'l) Object" where
  "ParseObject X s b =
     (case node_Parse X s of
        Inl err \<Rightarrow>
          (case b s of
             Inl err \<Rightarrow>
               (case predicate_Parse X s of
                  Inl err \<Rightarrow> Inl err
                | Inr v \<Rightarrow> Inr (NewPredicateObject (Some v)))
           | Inr v \<Rightarrow> Inr (NewLiteralObject v))
      | Inr v \<Rightarrow> Inr (NewNodeObject (Some v)))"

text \<open>
  \<open>strings.TrimSpace\<close> removes the leading and trailing white space runes of Unicode. On
  the bytes of the string these are the six ASCII characters and the UTF-8 encodings of
  U+0085, U+00A0, U+1680, U+2000 to U+200A, U+2028, U+2029, U+202F, U+205F and U+3000.
\<close>

definition spaceRunes :: "string list" where
  "spaceRunes =
     [[CHR 0x09], [CHR 0x0A], [CHR 0x0B], [CHR 0x0C], [CHR 0x0D], [CHR 0x20],
      [CHR 0xC2, CHR 0x85], [CHR 0xC2, CHR 0xA0], [CHR 0xE1, CHR 0x9A, CHR 0x80],
      [CHR 0xE2, CHR 0x80, CHR 0x80], [CHR 0xE2, CHR 0x80, CHR 0x81],
      [CHR 0xE2, CHR 0x80, CHR 0x82], [CHR 0xE2, CHR 0x80, CHR 0x83],
      [CHR 0xE2, CHR 0x80, CHR 0x84], [CHR 0xE2, CHR 0x80, CHR 0x85],
      [CHR 0xE2, CHR 0x80, CHR 0x86], [CHR 0xE2, CHR 0x80, CHR 0x87],
      [CHR 0xE2, CHR 0x80, CHR 0x88], [CHR 0xE2, CHR 0x80, CHR 0x89],
      [CHR 0xE2, CHR 0x80, CHR 0x8A], [CHR 0xE2, CHR 0x80, CHR 0xA8],
      [CHR 0xE2, CHR 0x80, CHR 0xA9], [CHR 0xE2, CHR 0x80, CHR 0xAF],
      [CHR 0xE2, CHR 0x81, CHR 0x9F], [CHR 0xE3, CHR 0x80, CHR 0x80]]"

text \<open>The number of bytes of the white space rune the string starts with, 0 if there is none.\<close>

definition leadingSpace :: "string list \<Rightarrow> string \<Rightarrow> nat" where
  "leadingSpace ws s =
     (case find (\<lambda>w. take (length w) s = w) ws of None \<Rightarrow> 0 | Some w \<Rightarrow> length w)"

fun trimLeftN :: "nat \<Rightarrow> string list \<Rightarrow> string \<Rightarrow> string" where
  "trimLeftN 0 ws s = s"
| "trimLeftN (Suc k) ws s =
     (if leadingSpace ws s = 0 then s else trimLeftN k ws (drop (leadingSpace ws s) s))"

definition TrimLeftSpace :: "string \<Rightarrow> string" where
  "TrimLeftSpace s = trimLeftN (length s) spaceRunes s"

definition TrimRightSpace :: "string \<Rightarrow> string" where
  "TrimRightSpace s = rev (trimLeftN (length s) (map rev spaceRunes) (rev s))"

definition TrimSpace :: "string \<Rightarrow> string" where
  "TrimSpace s = TrimRightSpace (TrimLeftSpace s)"

text \<open>
  The two patterns compiled by \<open>init\<close> have the shape: one opening character, one or more
  \<open>\s\<close> (tab, newline, form feed, carriage return, space), one closing character. A closing
  character is no \<open>\s\<close>, so a match that starts at a given position has one possible end, and
  \<open>FindIndex\<close> returns the match with the leftmost start, as the pair (start, end), or nil.
\<close>

definition reSpace :: "char \<Rightarrow> bool" where
  "reSpace c \<longleftrightarrow> c \<in> {CHR 0x09, CHR 0x0A, CHR 0x0C, CHR 0x0D, CHR 0x20}"

definition matchHere :: "char \<Rightarrow> char list \<Rightarrow> string \<Rightarrow> nat option" where
  "matchHere opn closers s =
     (case s of
        [] \<Rightarrow> None
      | c # r \<Rightarrow>
          (let k = length (takeWhile reSpace r)
           in if c = opn \<and> 1 \<le> k \<and> k < length r \<and> r ! k \<in> set closers
              then Some (k + 2) else None))"

fun findFrom :: "char \<Rightarrow> char list \<Rightarrow> nat \<Rightarrow> string \<Rightarrow> (nat \<times> nat) option" where
  "findFrom opn closers i [] = None"
| "findFrom opn closers i (c # r) =
     (case matchHere opn closers (c # r) of
        Some m \<Rightarrow> Some (i, i + m)
      | None \<Rightarrow> findFrom opn closers (i + 1) r)"

definition pSplit_FindIndex :: "string \<Rightarrow> (nat \<times> nat) option" where
  "pSplit_FindIndex s = findFrom (CHR ''>'') [dquote] 0 s"

definition oSplit_FindIndex :: "string \<Rightarrow> (nat \<times> nat) option" where
  "oSplit_FindIndex s = findFrom (CHR '']'') [CHR ''/'', dquote] 0 s"

text \<open>A Go slice expression \<open>s[lo:hi]\<close> panics unless \<open>lo \<le> hi \<le> len(s)\<close>.\<close>

definition slice_of :: "string \<Rightarrow> nat \<Rightarrow> nat \<Rightarrow> error + string" where
  "slice_of s lo hi =
     (if lo \<le> hi \<and> hi \<le> length s then Inr (take (hi - lo) (drop lo s))
      else Inl (Panic ''runtime error: slice bounds out of range''))"

definition ParseTriple ::
  "('n, 'l) ext \<Rightarrow> string \<Rightarrow> 'l Builder \<Rightarrow> error + ('n, 'l) Triple" where
  "ParseTriple X line b =
     (let raw = TrimSpace line
      in case (pSplit_FindIndex raw, oSplit_FindIndex raw) of
           (Some idxp, Some idxo) \<Rightarrow>
             ebind (slice_of raw 0 (fst idxp + 1)) (\<lambda>ss.
             ebind (slice_of raw (snd idxp - 1) (fst idxo + 1)) (\<lambda>sp.
             ebind (slice_of raw (snd idxo - 1) (length raw)) (\<lambda>so.
               case node_Parse X ss of
                 Inl err \<Rightarrow> Inl (SubParseError
                   (''triple.Parse failed to parse subject '' @ ss @ '' with error '' @ Error err))
               | Inr sv \<Rightarrow>
               (case predicate_Parse X sp of
                 Inl err \<Rightarrow> Inl (SubParseError
                   (''triple.Parse failed to parse predicate '' @ sp @ '' with error ''
                    @ Error err))
               | Inr pv \<Rightarrow>
               (case ParseObject X so b of
                 Inl err \<Rightarrow> Inl (SubParseError
                   (''triple.Parse failed to parse object '' @ so @ '' with error '' @ Error err))
               | Inr ov \<Rightarrow> NewTriple X (Some sv) (Some pv) (Some ov))))))
         | _ \<Rightarrow> Inl (SplitError (''triple.Parse could not split s p o  out of '' @ raw)))"

subsection \<open>Reification\<close>

text \<open>
  The closure \<open>rp\<close> of \<open>Reify\<close>. Calling \<open>Type\<close> on a nil predicate dereferences nil.
\<close>

definition rp :: "('n, 'l) ext \<Rightarrow> string \<Rightarrow> Predicate option \<Rightarrow> error + Predicate" where
  "rp X ident pv =
     (case pv of
        None \<Rightarrow> Inl (Panic ''runtime error: invalid memory address or nil pointer dereference'')
      | Some q \<Rightarrow>
          if predicate_Type q = Temporal
          then (case predicate_TimeAnchor q of
                  None \<Rightarrow> Inl (Panic
                    ''runtime error: invalid memory address or nil pointer dereference'')
                | Some ta \<Rightarrow> predicate_NewTemporal X (predicate_ID q) ta)
          else predicate_NewImmutable X ident)"

text \<open>
  \<open>Reify\<close> takes the node that \<open>node.NewBlankNode\<close> returns as the argument \<open>bn\<close>. The first
  component of the result is what the call prints on standard output.
\<close>

definition Reify ::
  "('n, 'l) ext \<Rightarrow> 'n \<Rightarrow> ('n, 'l) Triple
    \<Rightarrow> string \<times> (error + (('n, 'l) Triple option list \<times> 'n))" where
  "Reify X bn t =
     (Triple_String X t @ [CHR 0x0A],
      ebind (rp X ''_subject'' (t_p t)) (\<lambda>sv.
        let ts = ptr (NewTriple X (Some bn) (Some sv) (Some (NewNodeObject (t_s t))))
        in ebind (rp X ''_predicate'' (t_p t)) (\<lambda>pv.
        let tp = ptr (NewTriple X (Some bn) (Some pv) (Some (NewPredicateObject (t_p t))))
        in case t_o t of
             None \<Rightarrow> Inl (Panic
               ''runtime error: invalid memory address or nil pointer dereference'')
           | Some ob \<Rightarrow>
        ebind (if o_l ob \<noteq> None
               then ebind (rp X ''_object'' (t_p t)) (\<lambda>ov.
                 Inr (ptr (NewTriple X (Some bn) (Some ov) (Some (NewLiteralObject (o_l ob))))))
               else Inr None) (\<lambda>to1.
        ebind (if o_n ob \<noteq> None
               then ebind (rp X ''_object'' (t_p t)) (\<lambda>ov.
                 Inr (ptr (NewTriple X (Some bn) (Some ov) (Some (NewNodeObject (o_n ob))))))
               else Inr to1) (\<lambda>to2.
        ebind (if o_p ob \<noteq> None
               then ebind (rp X ''_object'' (t_p t)) (\<lambda>ov.
                 Inr (ptr (NewTriple X (Some bn) (Some ov) (Some (NewPredicateObject (o_p ob))))))
               else Inr to2) (\<lambda>to3.
        Inr ([Some t, ts, tp, to3], bn)))))))"

subsection \<open>An instance of the collaborating packages\<close>

text \<open>
  Modelled from the spec: the text forms of nodes, predicates and literals belong to the
  packages node, predicate and literal, which are not among the sources. This instance follows
  the serialized line format of the spec and the delimiters the split patterns rely on: a node
  is its canonical text \<open>/type<id>\<close>, a predicate prints as its quoted ID followed by \<open>@[]\<close>
  or \<open>@[anchor]\<close>, a literal as its quoted text followed by \<open>^^type:text\<close>. The builder
  splits a quoted text at the first \<open>"^^type:\<close>; it knows the type \<open>text\<close> and returns nil with
  no error for any other type name. The predicate constructors reject the empty ID. It serves
  the concrete evaluations below.
\<close>

fun showNat :: "nat \<Rightarrow> string" where
  "showNat k = (if k < 10 then [''0123456789'' ! k]
                else showNat (k div 10) @ [''0123456789'' ! (k mod 10)])"

definition showTime :: "time \<Rightarrow> string" where
  "showTime ta = (if ta < 0 then CHR ''-'' # showNat (nat (- ta)) else showNat (nat ta))"

definition digitVal :: "char \<Rightarrow> nat option" where
  "digitVal c = (if c \<in> set ''0123456789'' then Some (of_char c - 48) else None)"

fun readNat :: "nat \<Rightarrow> string \<Rightarrow> nat option" where
  "readNat acc [] = Some acc"
| "readNat acc (c # cs) =
     (case digitVal c of None \<Rightarrow> None | Some d \<Rightarrow> readNat (acc * 10 + d) cs)"

definition readTime :: "string \<Rightarrow> time option" where
  "readTime a =
     (case a of
        [] \<Rightarrow> None
      | c # cs \<Rightarrow>
          if c = CHR ''-''
          then (if cs = [] then None else map_option (\<lambda>k. - int k) (readNat 0 cs))
          else map_option int (readNat 0 a))"

definition sample_node_Parse :: "string \<Rightarrow> error + string" where
  "sample_node_Parse s =
     (if s \<noteq> [] \<and> hd s = CHR ''/'' \<and> last s = CHR ''>'' \<and> CHR ''<'' \<in> set s then Inr s
      else Inl (ExternalError (''node.Parse: invalid node '' @ s)))"

definition sample_predicate_String :: "Predicate \<Rightarrow> string" where
  "sample_predicate_String q =
     (case q of
        ImmutableP i \<Rightarrow> [dquote] @ i @ [dquote] @ ''@[]''
      | TemporalP i ta \<Rightarrow> [dquote] @ i @ [dquote] @ ''@['' @ showTime ta @ '']'')"

definition sample_predicate_Parse :: "string \<Rightarrow> error + Predicate" where
  "sample_predicate_Parse s =
     (let bad = Inl (ExternalError (''predicate.Parse: invalid predicate '' @ s))
      in case rev s of
           [] \<Rightarrow> bad
         | c # r \<Rightarrow>
             (let a = rev (takeWhile (\<lambda>x. x \<noteq> CHR ''['') r)
              in case dropWhile (\<lambda>x. x \<noteq> CHR ''['') r of
                   b1 # b2 # b3 # ir \<Rightarrow>
                     if c = CHR '']'' \<and> b2 = CHR ''@'' \<and> b3 = dquote \<and> ir \<noteq> []
                        \<and> last ir = dquote \<and> butlast ir \<noteq> []
                     then (if a = [] then Inr (ImmutableP (rev (butlast ir)))
                           else case readTime a of
                                  None \<Rightarrow> bad
                                | Some ta \<Rightarrow> Inr (TemporalP (rev (butlast ir)) ta))
                     else bad
                 | _ \<Rightarrow> bad))"

definition sample_literal_String :: "string \<Rightarrow> string" where
  "sample_literal_String v = [dquote] @ v @ [dquote] @ ''^^type:text''"

fun strings_Index :: "string \<Rightarrow> string \<Rightarrow> nat option" where
  "strings_Index [] m = (if m = [] then Some 0 else None)"
| "strings_Index (c # cs) m =
     (if take (length m) (c # cs) = m then Some 0 else map_option Suc (strings_Index cs m))"

definition sampleBuilder :: "string Builder" where
  "sampleBuilder s =
     (let bad = Inl (ExternalError (''literal.Parse: invalid literal '' @ s))
      in case s of
           [] \<Rightarrow> bad
         | c # r \<Rightarrow>
             if c \<noteq> dquote then bad
             else (case strings_Index r ([dquote] @ ''^^type:'') of
                     None \<Rightarrow> bad
                   | Some idx \<Rightarrow>
                       if drop (idx + 8) r = ''text'' then Inr (Some (take idx r))
                       else Inr None))"

definition sample_NewImmutable :: "string \<Rightarrow> error + Predicate" where
  "sample_NewImmutable i =
     (if i = [] then Inl (ExternalError ''predicate.NewImmutable: empty ID'')
      else Inr (ImmutableP i))"

definition sample_NewTemporal :: "string \<Rightarrow> time \<Rightarrow> error + Predicate" where
  "sample_NewTemporal i ta =
     (if i = [] then Inl (ExternalError ''predicate.NewTemporal: empty ID'')
      else Inr (TemporalP i ta))"

definition sampleExt :: "(string, string) ext" where
  "sampleExt =
     \<lparr>node_String = (\<lambda>v. v),
      node_Parse = sample_node_Parse,
      predicate_String = sample_predicate_String,
      predicate_Parse = sample_predicate_Parse,
      literal_String = sample_literal_String,
      predicate_NewImmutable = sample_NewImmutable,
      predicate_NewTemporal = sample_NewTemporal\<rparr>"

text \<open>
  The variant an object holds, as the spec words it for the GUID: defined when exactly one
  field is present, with its tag.
\<close>

datatype Variant = NodeVariant | LiteralVariant | PredicateVariant

definition variant :: "('n, 'l) Object \<Rightarrow> Variant option" where
  "variant ob =
     (if o_n ob \<noteq> None \<and> o_p ob = None \<and> o_l ob = None then Some NodeVariant
      else if o_n ob = None \<and> o_p ob = None \<and> o_l ob \<noteq> None then Some LiteralVariant
      else if o_n ob = None \<and> o_p ob \<noteq> None \<and> o_l ob = None then Some PredicateVariant
      else None)"


text \<open>Three triples of the instance, used in the concrete evaluations.\<close>

definition sampleTriple :: "(string, string) Triple" where
  "sampleTriple =
     \<lparr>t_s = Some ''/t<x>'', t_p = Some (ImmutableP ''p''),
      t_o = Some (NewLiteralObject (Some ''v''))\<rparr>"

definition temporalTriple :: "(string, string) Triple" where
  "temporalTriple =
     \<lparr>t_s = Some ''/t<x>'', t_p = Some (TemporalP ''p'' 42),
      t_o = Some (NewNodeObject (Some ''/u<y>''))\<rparr>"

definition delimiterTriple :: "(string, string) Triple" where
  "delimiterTriple =
     \<lparr>t_s = Some ''/t<x>'', t_p = Some (ImmutableP ''a] /b''),
      t_o = Some (NewNodeObject (Some ''/u<y>''))\<rparr>"

section \<open>Package semantic: statements and graph clauses\<close>

subsection \<open>Graph clauses\<close>

record ('n, 'l) GraphClause =
  c_S :: "'n option"
  c_SBinding :: string
  c_SAlias :: string
  c_STypeAlias :: string
  c_SIDAlias :: string
  c_P :: "Predicate option"
  c_PAlias :: string
  c_PID :: string
  c_PAnchorBinding :: string
  c_PBinding :: string
  c_PLowerBound :: "time option"
  c_PUpperBound :: "time option"
  c_PLowerBoundAlias :: string
  c_PUpperBoundAlias :: string
  c_PIDAlias :: string
  c_PAnchorAlias :: string
  c_O :: "('n, 'l) Object option"
  c_OBinding :: string
  c_OID :: string
  c_OAlias :: string
  c_OTypeAlias :: string
  c_OIDAlias :: string
  c_OAnchorAlias :: string
  c_OAnchorBinding :: string
  c_OLowerBound :: "time option"
  c_OUpperBound :: "time option"
  c_OLowerBoundAlias :: string
  c_OUpperBoundAlias :: string

text \<open>The zero value \<open>GraphClause{}\<close>.\<close>

definition emptyClause :: "('n, 'l) GraphClause" where
  "emptyClause =
     \<lparr>c_S = None, c_SBinding = [], c_SAlias = [], c_STypeAlias = [], c_SIDAlias = [],
      c_P = None, c_PAlias = [], c_PID = [], c_PAnchorBinding = [], c_PBinding = [],
      c_PLowerBound = None, c_PUpperBound = None, c_PLowerBoundAlias = [],
      c_PUpperBoundAlias = [], c_PIDAlias = [], c_PAnchorAlias = [],
      c_O = None, c_OBinding = [], c_OID = [], c_OAlias = [], c_OTypeAlias = [],
      c_OIDAlias = [], c_OAnchorAlias = [], c_OAnchorBinding = [], c_OLowerBound = None,
      c_OUpperBound = None, c_OLowerBoundAlias = [], c_OUpperBoundAlias = []\<rparr>"

definition Specificity :: "('n, 'l) GraphClause \<Rightarrow> int" where
  "Specificity c =
     (let s0 = 0;
          s1 = (if c_S c \<noteq> None then s0 + 1 else s0);
          s2 = (if c_P c \<noteq> None then s1 + 1 else s1);
          s3 = (if c_O c \<noteq> None then s2 + 1 else s2)
      in s3)"

subsection \<open>The store\<close>

text \<open>
  A \<open>*GraphClause\<close> is \<open>None\<close> (nil) or the address of a cell of \<open>clauseCells\<close>; an
  allocation appends a cell, so a new address differs from every address in use. A slice of
  clause pointers is a header (backing array, length, capacity) over an array of
  \<open>arrayCells\<close>: two headers with the same \<open>s_arr\<close> share their elements. The nil slice has
  capacity 0.
\<close>

record ('n, 'l) heap =
  clauseCells :: "('n, 'l) GraphClause list"
  arrayCells :: "nat option list list"

record slice =
  s_arr :: nat
  s_len :: nat
  s_cap :: nat

definition nilSlice :: slice where
  "nilSlice = \<lparr>s_arr = 0, s_len = 0, s_cap = 0\<rparr>"

definition emptyHeap :: "('n, 'l) heap" where
  "emptyHeap = \<lparr>clauseCells = [], arrayCells = []\<rparr>"

definition elements :: "('n, 'l) heap \<Rightarrow> slice \<Rightarrow> nat option list" where
  "elements h sl =
     (if s_arr sl < length (arrayCells h) then take (s_len sl) (arrayCells h ! s_arr sl)
      else [])"

definition store_elements :: "('n, 'l) heap \<Rightarrow> slice \<Rightarrow> nat option list \<Rightarrow> ('n, 'l) heap" where
  "store_elements h sl ys =
     (if s_arr sl < length (arrayCells h)
      then h\<lparr>arrayCells :=
             (arrayCells h)[s_arr sl := ys @ drop (s_len sl) (arrayCells h ! s_arr sl)]\<rparr>
      else h)"

text \<open>
  The built-in \<open>append\<close> of one pointer. With room left it writes into the shared backing
  array; otherwise it copies the elements to a new array. How far the run time grows the
  capacity is the parameter \<open>grow\<close>; the new capacity is at least the new length.
\<close>

definition append_ptr ::
  "(nat \<Rightarrow> nat) \<Rightarrow> slice \<Rightarrow> nat option \<Rightarrow> ('n, 'l) heap \<Rightarrow> slice \<times> ('n, 'l) heap" where
  "append_ptr grow sl v h =
     (if s_len sl < s_cap sl \<and> s_arr sl < length (arrayCells h)
      then (sl\<lparr>s_len := s_len sl + 1\<rparr>,
            h\<lparr>arrayCells :=
                (arrayCells h)[s_arr sl := (arrayCells h ! s_arr sl)[s_len sl := v]]\<rparr>)
      else (let newcap = max (s_len sl + 1) (grow (s_cap sl))
            in (\<lparr>s_arr = length (arrayCells h), s_len = s_len sl + 1, s_cap = newcap\<rparr>,
                h\<lparr>arrayCells := arrayCells h
                    @ [elements h sl @ [v] @ replicate (newcap - (s_len sl + 1)) None]\<rparr>)))"

definition deref :: "('n, 'l) heap \<Rightarrow> nat option \<Rightarrow> error + ('n, 'l) GraphClause" where
  "deref h r =
     (case r of
        None \<Rightarrow> Inl (Panic ''runtime error: invalid memory address or nil pointer dereference'')
      | Some a \<Rightarrow>
          if a < length (clauseCells h) then Inr (clauseCells h ! a)
          else Inl (Panic ''runtime error: invalid memory address or nil pointer dereference''))"

text \<open>An assignment to fields of the clause a pointer refers to; \<open>f\<close> is the field update.\<close>

definition mutate ::
  "nat option \<Rightarrow> (('n, 'l) GraphClause \<Rightarrow> ('n, 'l) GraphClause) \<Rightarrow> ('n, 'l) heap
    \<Rightarrow> error + ('n, 'l) heap" where
  "mutate r f h =
     ebind (deref h r) (\<lambda>c. Inr (h\<lparr>clauseCells := (clauseCells h)[the r := f c]\<rparr>))"

subsection \<open>Statements\<close>

definition Query :: int where "Query = 0"
definition Insert :: int where "Insert = 1"
definition Delete :: int where "Delete = 2"
definition Create :: int where "Create = 3"
definition Drop :: int where "Drop = 4"

record ('n, 'l) Statement =
  sType :: int
  graphs :: "string list"
  data :: "('n, 'l) Triple option list"
  pattern :: slice
  workingClause :: "nat option"

text \<open>The zero value \<open>Statement{}\<close>.\<close>

definition emptyStatement :: "('n, 'l) Statement" where
  "emptyStatement =
     \<lparr>sType = 0, graphs = [], data = [], pattern = nilSlice, workingClause = None\<rparr>"

definition BindType :: "('n, 'l) Statement \<Rightarrow> int \<Rightarrow> ('n, 'l) Statement" where
  "BindType s st = s\<lparr>sType := st\<rparr>"

definition Statement_Type :: "('n, 'l) Statement \<Rightarrow> int" where
  "Statement_Type s = sType s"

definition GraphPatternClauses :: "('n, 'l) Statement \<Rightarrow> slice" where
  "GraphPatternClauses s = pattern s"

definition ResetWorkingGraphClause ::
  "('n, 'l) Statement \<times> ('n, 'l) heap \<Rightarrow> ('n, 'l) Statement \<times> ('n, 'l) heap" where
  "ResetWorkingGraphClause st =
     (case st of (s, h) \<Rightarrow>
        (s\<lparr>workingClause := Some (length (clauseCells h))\<rparr>,
         h\<lparr>clauseCells := clauseCells h @ [emptyClause]\<rparr>))"

definition WorkingClause :: "('n, 'l) Statement \<Rightarrow> nat option" where
  "WorkingClause s = workingClause s"

definition AddWorkingGrpahClause ::
  "(nat \<Rightarrow> nat) \<Rightarrow> ('n, 'l) Statement \<times> ('n, 'l) heap
    \<Rightarrow> ('n, 'l) Statement \<times> ('n, 'l) heap" where
  "AddWorkingGrpahClause grow st =
     (case st of (s, h) \<Rightarrow>
        (case append_ptr grow (pattern s) (workingClause s) h of (sl, h') \<Rightarrow>
           ResetWorkingGraphClause (s\<lparr>pattern := sl\<rparr>, h')))"

subsection \<open>Sorting by specificity\<close>

text \<open>
  The methods of \<open>bySpecificity\<close> on the elements of the slice. An index out of range and a
  nil element panic.
\<close>

definition index_ptr :: "nat option list \<Rightarrow> nat \<Rightarrow> error + nat option" where
  "index_ptr xs i =
     (if i < length xs then Inr (xs ! i) else Inl (Panic ''runtime error: index out of range''))"

definition bySpecificity_Len :: "nat option list \<Rightarrow> nat" where
  "bySpecificity_Len xs = length xs"

definition bySpecificity_Swap :: "nat option list \<Rightarrow> nat \<Rightarrow> nat \<Rightarrow> error + nat option list" where
  "bySpecificity_Swap xs i j =
     ebind (index_ptr xs j) (\<lambda>vj.
     ebind (index_ptr xs i) (\<lambda>vi. Inr (xs[i := vj, j := vi])))"

definition bySpecificity_Less ::
  "('n, 'l) heap \<Rightarrow> nat option list \<Rightarrow> nat \<Rightarrow> nat \<Rightarrow> error + bool" where
  "bySpecificity_Less h xs i j =
     ebind (index_ptr xs i) (\<lambda>vi.
     ebind (deref h vi) (\<lambda>ci.
     ebind (index_ptr xs j) (\<lambda>vj.
     ebind (deref h vj) (\<lambda>cj. Inr (Specificity ci > Specificity cj)))))"

text \<open>
  \<open>sort.Sort\<close> belongs to the standard library. It is modelled by the library's
  \<open>insertionSort\<close>, the routine it runs on short ranges, over the methods \<open>Len\<close>, \<open>Less\<close>
  and \<open>Swap\<close> of its argument: the inner loop moves element \<open>j\<close> down while it is less than its
  predecessor, the outer loop runs \<open>i\<close> from \<open>a + 1\<close> to \<open>b - 1\<close>.
\<close>

fun insertionInner ::
  "('st \<Rightarrow> nat \<Rightarrow> nat \<Rightarrow> error + bool) \<Rightarrow> ('st \<Rightarrow> nat \<Rightarrow> nat \<Rightarrow> error + 'st)
    \<Rightarrow> nat \<Rightarrow> nat \<Rightarrow> 'st \<Rightarrow> error + 'st" where
  "insertionInner lessf swapf a 0 st = Inr st"
| "insertionInner lessf swapf a (Suc j) st =
     (if Suc j > a
      then ebind (lessf st (Suc j) j) (\<lambda>lt.
             if lt then ebind (swapf st (Suc j) j) (insertionInner lessf swapf a j)
             else Inr st)
      else Inr st)"

fun insertionOuter ::
  "('st \<Rightarrow> nat \<Rightarrow> nat \<Rightarrow> error + bool) \<Rightarrow> ('st \<Rightarrow> nat \<Rightarrow> nat \<Rightarrow> error + 'st)
    \<Rightarrow> nat \<Rightarrow> nat \<Rightarrow> nat \<Rightarrow> 'st \<Rightarrow> error + 'st" where
  "insertionOuter lessf swapf a 0 i st = Inr st"
| "insertionOuter lessf swapf a (Suc k) i st =
     ebind (insertionInner lessf swapf a i st) (insertionOuter lessf swapf a k (i + 1))"

definition insertionSort ::
  "('st \<Rightarrow> nat \<Rightarrow> nat \<Rightarrow> error + bool) \<Rightarrow> ('st \<Rightarrow> nat \<Rightarrow> nat \<Rightarrow> error + 'st)
    \<Rightarrow> nat \<Rightarrow> nat \<Rightarrow> 'st \<Rightarrow> error + 'st" where
  "insertionSort lessf swapf a b st = insertionOuter lessf swapf a (b - (a + 1)) (a + 1) st"

definition sort_Sort ::
  "('st \<Rightarrow> nat) \<Rightarrow> ('st \<Rightarrow> nat \<Rightarrow> nat \<Rightarrow> error + bool) \<Rightarrow> ('st \<Rightarrow> nat \<Rightarrow> nat \<Rightarrow> error + 'st)
    \<Rightarrow> 'st \<Rightarrow> error + 'st" where
  "sort_Sort lenf lessf swapf st = insertionSort lessf swapf 0 (lenf st) st"

text \<open>
  \<open>ptrns\<close> is a copy of the header \<open>s.pattern\<close>, over the same backing array: the sorted
  elements are written to that array.
\<close>

definition SortedGraphPatternClauses ::
  "('n, 'l) Statement \<times> ('n, 'l) heap
    \<Rightarrow> error + (slice \<times> ('n, 'l) Statement \<times> ('n, 'l) heap)" where
  "SortedGraphPatternClauses st =
     (case st of (s, h) \<Rightarrow>
        (let ptrns = pattern s
         in ebind (sort_Sort bySpecificity_Len (bySpecificity_Less h) bySpecificity_Swap
                     (elements h ptrns))
              (\<lambda>ys. Inr (ptrns, s, store_elements h ptrns ys))))"

text \<open>
  The specificities of the clauses a slice lists, and the states in which every pointer of
  the statement is nil or allocated and the pattern header lies within its array.
\<close>

definition spec_of :: "('n, 'l) heap \<Rightarrow> nat option \<Rightarrow> int" where
  "spec_of h r = Specificity (clauseCells h ! the r)"

definition specificities :: "('n, 'l) heap \<Rightarrow> slice \<Rightarrow> int list" where
  "specificities h sl = map (spec_of h) (elements h sl)"

definition non_increasing :: "int list \<Rightarrow> bool" where
  "non_increasing vs = sorted_wrt (\<lambda>a b. a \<ge> b) vs"

definition valid_ref :: "('n, 'l) heap \<Rightarrow> nat option \<Rightarrow> bool" where
  "valid_ref h r = (case r of None \<Rightarrow> True | Some a \<Rightarrow> a < length (clauseCells h))"

definition valid_slice :: "('n, 'l) heap \<Rightarrow> slice \<Rightarrow> bool" where
  "valid_slice h sl \<longleftrightarrow>
     (s_cap sl = 0 \<and> s_len sl = 0) \<or>
     (s_arr sl < length (arrayCells h) \<and> s_len sl \<le> s_cap sl
      \<and> s_cap sl = length (arrayCells h ! s_arr sl))"

definition valid_state :: "('n, 'l) Statement \<times> ('n, 'l) heap \<Rightarrow> bool" where
  "valid_state st =
     (case st of (s, h) \<Rightarrow>
        valid_slice h (pattern s) \<and> list_all (valid_ref h) (elements h (pattern s))
        \<and> valid_ref h (workingClause s))"

definition allocated :: "('n, 'l) heap \<Rightarrow> nat option \<Rightarrow> bool" where
  "allocated h r = (case r of None \<Rightarrow> False | Some a \<Rightarrow> a < length (clauseCells h))"

definition committed :: "('n, 'l) Statement \<times> ('n, 'l) heap \<Rightarrow> bool" where
  "committed st =
     (case st of (s, h) \<Rightarrow>
        valid_slice h (pattern s) \<and> list_all (allocated h) (elements h (pattern s)))"

text \<open>
  A statement of the instance, built the way the parser does: reset the working clause, then
  four times assign to the working clause and commit it. The committed clauses have the
  specificities 0, 3, 1 and 2, in this order.
\<close>

definition doubling :: "nat \<Rightarrow> nat" where
  "doubling c = 2 * c"

definition fillAndCommit ::
  "((string, string) GraphClause \<Rightarrow> (string, string) GraphClause)
    \<Rightarrow> (string, string) Statement \<times> (string, string) heap
    \<Rightarrow> (string, string) Statement \<times> (string, string) heap" where
  "fillAndCommit f st =
     (case st of (s, h) \<Rightarrow>
        (case mutate (WorkingClause s) f h of
           Inl e \<Rightarrow> (s, h)
         | Inr h' \<Rightarrow> AddWorkingGrpahClause doubling (s, h')))"

definition sampleStatement :: "(string, string) Statement \<times> (string, string) heap" where
  "sampleStatement =
     fillAndCommit (\<lambda>c. c\<lparr>c_S := Some ''/t<x>'', c_P := Some (ImmutableP ''p'')\<rparr>)
    (fillAndCommit (\<lambda>c. c\<lparr>c_O := Some (NewLiteralObject (Some ''v''))\<rparr>)
    (fillAndCommit (\<lambda>c. c\<lparr>c_S := Some ''/t<x>'', c_P := Some (ImmutableP ''p''),
                          c_O := Some (NewNodeObject (Some ''/u<y>''))\<rparr>)
    (fillAndCommit (\<lambda>c. c\<lparr>c_SBinding := ''?s''\<rparr>)
    (ResetWorkingGraphClause (emptyStatement, emptyHeap)))))"

section \<open>Properties of package triple\<close>

subsection \<open>Encoding\<close>

text \<open>The test vectors of RFC 4648 for the model of \<open>base64.StdEncoding\<close>.\<close>

lemma EncodeToString_vectors:
  "EncodeToString [] = []"
  "EncodeToString ''f'' = ''Zg==''"
  "EncodeToString ''fo'' = ''Zm8=''"
  "EncodeToString ''foo'' = ''Zm9v''"
  "EncodeToString ''foob'' = ''Zm9vYg==''"
  "EncodeToString ''fooba'' = ''Zm9vYmE=''"
  "EncodeToString ''foobar'' = ''Zm9vYmFy''"
  by (simp_all add: enc_def encodeStd_def)

subsection \<open>Objects\<close>

text \<open>
  C6, as the code has it. An object made by one of the three constructors from a non-nil
  argument answers the accessor of its own variant with the boxed value, and the other two
  accessors with a type mismatch error.
\<close>

theorem constructors_variant_exclusive:
  "Object_Node X (NewNodeObject (Some v)) = Inr v
   \<and> isTypeMismatch (Object_Predicate X (NewNodeObject (Some v)))
   \<and> isTypeMismatch (Object_Literal X (NewNodeObject (Some v)))
   \<and> Object_Predicate X (NewPredicateObject (Some w)) = Inr w
   \<and> isTypeMismatch (Object_Node X (NewPredicateObject (Some w)))
   \<and> isTypeMismatch (Object_Literal X (NewPredicateObject (Some w)))
   \<and> Object_Literal X (NewLiteralObject (Some u)) = Inr u
   \<and> isTypeMismatch (Object_Node X (NewLiteralObject (Some u)))
   \<and> isTypeMismatch (Object_Predicate X (NewLiteralObject (Some u)))"
  by (simp add: Object_Node_def Object_Predicate_def Object_Literal_def NewNodeObject_def
      NewPredicateObject_def NewLiteralObject_def)

text \<open>
  C6 as stated fails for a nil argument, which the constructors accept without a check:
  \<open>NewNodeObject(nil)\<close> is an object on which none of the three accessors succeeds.
\<close>

theorem NewNodeObject_nil_counterexample:
  "\<not> succeeds (Object_Node sampleExt (NewNodeObject None))
   \<and> \<not> succeeds (Object_Predicate sampleExt (NewNodeObject None))
   \<and> \<not> succeeds (Object_Literal sampleExt (NewNodeObject None))"
  by (simp add: Object_Node_def Object_Predicate_def Object_Literal_def NewNodeObject_def)




lemma Object_GUID_sample:
  "Object_GUID sampleExt (NewLiteralObject (Some ''v'')) = ''bGl0ZXJhbDoidiJeXnR5cGU6dGV4dA==''"
  by (simp add: Object_GUID_def NewLiteralObject_def sampleExt_def
      Object_String_def sample_literal_String_def dquote_def enc_def encodeStd_def)

subsection \<open>Parsing\<close>

text \<open>
  The fuel of the trimming loops is enough: what \<open>TrimSpace\<close> returns starts and ends with
  no white space rune.
\<close>

lemma leadingSpace_Nil: "leadingSpace ws [] = 0"
  by (auto simp: leadingSpace_def find_Some_iff split: option.splits)

lemma trimLeftN_done: "length s \<le> k \<Longrightarrow> leadingSpace ws (trimLeftN k ws s) = 0"
proof (induction k arbitrary: s)
  case 0
  then show ?case by (simp add: leadingSpace_Nil)
next
  case (Suc k)
  show ?case
  proof (cases "leadingSpace ws s = 0")
    case True
    then show ?thesis by simp
  next
    case False
    then have "length (drop (leadingSpace ws s) s) \<le> k"
      using Suc.prems by simp
    then show ?thesis
      using False Suc.IH by simp
  qed
qed

lemma TrimSpace_trimmed:
  "leadingSpace (map rev spaceRunes) (rev (TrimSpace s)) = 0"
  "leadingSpace spaceRunes (TrimLeftSpace s) = 0"
  by (simp_all add: TrimSpace_def TrimRightSpace_def TrimLeftSpace_def trimLeftN_done)

text \<open>
  The split patterns on small texts: the leftmost match is returned, a vertical tab is no
  \<open>\s\<close>, and the closing character must follow the white space.
\<close>

lemma FindIndex_examples:
  "pSplit_FindIndex (''a>'' @ [tab, CHR '' '', dquote] @ ''b>'' @ [tab, dquote]) = Some (1, 5)"
  "pSplit_FindIndex (''a>'' @ [dquote] @ ''b> c'') = None"
  "oSplit_FindIndex (''x]'' @ [CHR 0x0B] @ ''/ y]'' @ [tab] @ ''/z'') = Some (6, 9)"
  "oSplit_FindIndex (''x] '' @ [dquote] @ ''] /'') = Some (1, 4)"
  by code_simp+

text \<open>
  Both patterns may match with the object match first; then the second slice expression has
  its bounds reversed.
\<close>

lemma ParseTriple_crossed_matches:
  "pSplit_FindIndex (''] /> '' @ [dquote]) = Some (3, 6)"
  "oSplit_FindIndex (''] /> '' @ [dquote]) = Some (0, 3)"
  "ParseTriple sampleExt (''] /> '' @ [dquote]) sampleBuilder
     = Inl (Panic ''runtime error: slice bounds out of range'')"
  by code_simp+

text \<open>
  C4, as the code has it. \<open>ParseObject\<close> applies \<open>NewNodeObject\<close> to the result of the node
  parser when that returns no error; otherwise \<open>NewLiteralObject\<close> to the result of the builder
  when that returns no error; otherwise \<open>NewPredicateObject\<close> to the result of the predicate
  parser when that returns no error; and otherwise it returns the error of the predicate parser.
  The object holds the variant of the constructor whenever the result it boxes is not nil.
\<close>

theorem ParseObject_order:
  "(node_Parse X s = Inr v
      \<longrightarrow> ParseObject X s b = Inr (NewNodeObject (Some v))
          \<and> variant (NewNodeObject (Some v) :: ('n, 'l) Object) = Some NodeVariant)
   \<and> (node_Parse X s = Inl e1 \<and> b s = Inr u
        \<longrightarrow> ParseObject X s b = Inr (NewLiteralObject u)
            \<and> (u \<noteq> None
                 \<longrightarrow> variant (NewLiteralObject u :: ('n, 'l) Object) = Some LiteralVariant))
   \<and> (node_Parse X s = Inl e1 \<and> b s = Inl e2 \<and> predicate_Parse X s = Inr w
        \<longrightarrow> ParseObject X s b = Inr (NewPredicateObject (Some w))
            \<and> variant (NewPredicateObject (Some w) :: ('n, 'l) Object) = Some PredicateVariant)
   \<and> (node_Parse X s = Inl e1 \<and> b s = Inl e2 \<and> predicate_Parse X s = Inl e3
        \<longrightarrow> ParseObject X s b = Inl e3)"
  for X :: "('n, 'l) ext"
  by (simp add: ParseObject_def variant_def NewNodeObject_def NewLiteralObject_def
      NewPredicateObject_def)

text \<open>C4 at four texts of the instance: a node, a literal, a predicate and a text none accepts.\<close>

theorem ParseObject_order_witness:
  "node_Parse sampleExt ''/u<y>'' = Inr ''/u<y>''
   \<and> ParseObject sampleExt ''/u<y>'' sampleBuilder = Inr (NewNodeObject (Some ''/u<y>''))
   \<and> node_Parse sampleExt (sample_literal_String ''v'')
       = Inl (ExternalError (''node.Parse: invalid node '' @ sample_literal_String ''v''))
   \<and> sampleBuilder (sample_literal_String ''v'') = Inr (Some ''v'')
   \<and> ParseObject sampleExt (sample_literal_String ''v'') sampleBuilder
       = Inr (NewLiteralObject (Some ''v''))
   \<and> variant (NewLiteralObject (Some ''v'') :: (string, string) Object) = Some LiteralVariant
   \<and> node_Parse sampleExt (sample_predicate_String (ImmutableP ''p''))
       = Inl (ExternalError
               (''node.Parse: invalid node '' @ sample_predicate_String (ImmutableP ''p'')))
   \<and> sampleBuilder (sample_predicate_String (ImmutableP ''p''))
       = Inl (ExternalError
               (''literal.Parse: invalid literal ''
                @ sample_predicate_String (ImmutableP ''p'')))
   \<and> predicate_Parse sampleExt (sample_predicate_String (ImmutableP ''p''))
       = Inr (ImmutableP ''p'')
   \<and> ParseObject sampleExt (sample_predicate_String (ImmutableP ''p'')) sampleBuilder
       = Inr (NewPredicateObject (Some (ImmutableP ''p'')))
   \<and> node_Parse sampleExt ''x'' = Inl (ExternalError ''node.Parse: invalid node x'')
   \<and> sampleBuilder ''x'' = Inl (ExternalError ''literal.Parse: invalid literal x'')
   \<and> predicate_Parse sampleExt ''x''
       = Inl (ExternalError ''predicate.Parse: invalid predicate x'')
   \<and> ParseObject sampleExt ''x'' sampleBuilder
       = Inl (ExternalError ''predicate.Parse: invalid predicate x'')"
proof -
  have n1: "node_Parse sampleExt ''/u<y>'' = Inr ''/u<y>''"
    by code_simp
  have n2: "node_Parse sampleExt (sample_literal_String ''v'')
       = Inl (ExternalError (''node.Parse: invalid node '' @ sample_literal_String ''v''))"
    by code_simp
  have b2: "sampleBuilder (sample_literal_String ''v'') = Inr (Some ''v'')"
    by code_simp
  have n3: "node_Parse sampleExt (sample_predicate_String (ImmutableP ''p''))
       = Inl (ExternalError
               (''node.Parse: invalid node '' @ sample_predicate_String (ImmutableP ''p'')))"
    by code_simp
  have b3: "sampleBuilder (sample_predicate_String (ImmutableP ''p''))
       = Inl (ExternalError
               (''literal.Parse: invalid literal ''
                @ sample_predicate_String (ImmutableP ''p'')))"
    by code_simp
  have p3: "predicate_Parse sampleExt (sample_predicate_String (ImmutableP ''p''))
       = Inr (ImmutableP ''p'')"
    by code_simp
  have n4: "node_Parse sampleExt ''x'' = Inl (ExternalError ''node.Parse: invalid node x'')"
    by code_simp
  have b4: "sampleBuilder ''x'' = Inl (ExternalError ''literal.Parse: invalid literal x'')"
    by code_simp
  have p4: "predicate_Parse sampleExt ''x''
       = Inl (ExternalError ''predicate.Parse: invalid predicate x'')"
    by code_simp
  show ?thesis
    using n1 n2 b2 n3 b3 p3 n4 b4 p4
      ParseObject_order [of sampleExt "''/u<y>''" "''/u<y>''" sampleBuilder]
      ParseObject_order [of sampleExt "sample_literal_String ''v''" _ sampleBuilder _
        "Some ''v''"]
      ParseObject_order [of sampleExt "sample_predicate_String (ImmutableP ''p'')" _
        sampleBuilder _ _ _ "ImmutableP ''p''"]
      ParseObject_order [of sampleExt "''x''" _ sampleBuilder]
    by simp
qed

text \<open>
  C4 as stated fails for a builder that returns a nil literal and no error, as the builder of
  the instance does for a literal of a type it does not know: the node parser fails, the builder
  is the first to succeed, and the object returned holds no variant at all.
\<close>

theorem ParseObject_nil_literal_counterexample:
  "node_Parse sampleExt ([dquote] @ ''v'' @ [dquote] @ ''^^type:colour'')
     = Inl (ExternalError
             (''node.Parse: invalid node '' @ [dquote] @ ''v'' @ [dquote] @ ''^^type:colour''))
   \<and> sampleBuilder ([dquote] @ ''v'' @ [dquote] @ ''^^type:colour'') = Inr None
   \<and> ParseObject sampleExt ([dquote] @ ''v'' @ [dquote] @ ''^^type:colour'') sampleBuilder
       = Inr (NewLiteralObject None)
   \<and> variant (NewLiteralObject None :: (string, string) Object) = None
   \<and> \<not> succeeds (Object_Node sampleExt (NewLiteralObject None))
   \<and> \<not> succeeds (Object_Literal sampleExt (NewLiteralObject None))
   \<and> \<not> succeeds (Object_Predicate sampleExt (NewLiteralObject None))"
  by code_simp

text \<open>
  C5. When either split pattern has no match in the trimmed line, \<open>ParseTriple\<close> returns the
  split error that quotes the trimmed line; and it returns a split error in no other case, so
  every other result comes from a line in which both patterns matched.
\<close>

theorem ParseTriple_split:
  "(pSplit_FindIndex (TrimSpace line) = None \<or> oSplit_FindIndex (TrimSpace line) = None
      \<longrightarrow> ParseTriple X line b
          = Inl (SplitError (''triple.Parse could not split s p o  out of '' @ TrimSpace line)))
   \<and> ((\<exists>m. ParseTriple X line b = Inl (SplitError m))
      \<longrightarrow> pSplit_FindIndex (TrimSpace line) = None \<or> oSplit_FindIndex (TrimSpace line) = None)"
  by (auto simp: ParseTriple_def Let_def ebind_def NewTriple_def slice_of_def split: option.splits sum.splits)

text \<open>C5 at a line without the subject pattern.\<close>

theorem ParseTriple_split_witness:
  "pSplit_FindIndex (TrimSpace ''  /t<x> p  '') = None
   \<and> ParseTriple sampleExt ''  /t<x> p  '' sampleBuilder
       = Inl (SplitError ''triple.Parse could not split s p o  out of /t<x> p'')"
proof -
  have t: "TrimSpace ''  /t<x> p  '' = ''/t<x> p''"
    by code_simp
  have h: "pSplit_FindIndex (TrimSpace ''  /t<x> p  '') = None"
    by code_simp
  show ?thesis
    using h t ParseTriple_split [of "''  /t<x> p  ''" sampleExt sampleBuilder]
    by simp
qed

text \<open>
  C3, as the code has it. The serialized form of a triple parses back to the triple when it
  carries no white space at its ends, the first match of each split pattern lies on the
  boundary it is meant for (subject and predicate, predicate and object), and each component
  text parses back to the component itself: the node parser returns the subject for the subject
  text, the predicate parser the predicate for the predicate text, and \<open>ParseObject\<close> the object
  for the object text.
\<close>

theorem ParseTriple_roundtrip:
  assumes t: "t = \<lparr>t_s = Some sv, t_p = Some pv, t_o = Some ov\<rparr>"
    and ss: "ss = node_String X sv" and sp: "sp = predicate_String X pv"
    and so: "so = Object_String X ov"
    and trim: "TrimSpace (Triple_String X t) = Triple_String X t"
    and ne: "ss \<noteq> []"
    and idxp: "pSplit_FindIndex (Triple_String X t) = Some (length ss - 1, length ss + 2)"
    and idxo: "oSplit_FindIndex (Triple_String X t)
                 = Some (length ss + length sp, length ss + length sp + 3)"
    and ps: "node_Parse X ss = Inr sv" and pp: "predicate_Parse X sp = Inr pv"
    and po: "ParseObject X so b = Inr ov"
  shows "ParseTriple X (Triple_String X t) b = Inr t"
proof -
  have raw: "Triple_String X t = ss @ [tab] @ sp @ [tab] @ so"
    by (simp add: Triple_String_def fmt_ptr_def t ss sp so)
  have l1: "0 < length ss" using ne by simp
  have s1: "slice_of (ss @ [tab] @ sp @ [tab] @ so) 0 (length ss - 1 + 1) = Inr ss"
    using l1 by (simp add: slice_of_def)
  have s2: "slice_of (ss @ [tab] @ sp @ [tab] @ so) (length ss + 2 - 1) (length ss + length sp + 1)
              = Inr sp"
    by (simp add: slice_of_def)
  have s3: "slice_of (ss @ [tab] @ sp @ [tab] @ so) (length ss + length sp + 3 - 1)
              (length (ss @ [tab] @ sp @ [tab] @ so)) = Inr so"
    by (simp add: slice_of_def)
  have nt: "NewTriple X (Some sv) (Some pv) (Some ov) = Inr t"
    by (simp add: NewTriple_def t)
  show ?thesis
    unfolding ParseTriple_def trim Let_def idxp idxo
    by (simp only: raw prod.case option.case fst_conv snd_conv s1 s2 s3 ebind_def sum.case
        ps pp po nt)
qed

text \<open>C3 at a triple of the instance with a literal object.\<close>

theorem ParseTriple_roundtrip_witness:
  "ParseTriple sampleExt (Triple_String sampleExt sampleTriple) sampleBuilder = Inr sampleTriple"
proof (rule ParseTriple_roundtrip [where sv = "''/t<x>''" and pv = "ImmutableP ''p''"
      and ov = "NewLiteralObject (Some ''v'')" and ss = "''/t<x>''"
      and sp = "sample_predicate_String (ImmutableP ''p'')"
      and so = "sample_literal_String ''v''"])
  show "sampleTriple = \<lparr>t_s = Some ''/t<x>'', t_p = Some (ImmutableP ''p''),
      t_o = Some (NewLiteralObject (Some ''v''))\<rparr>"
    by (simp add: sampleTriple_def)
  show "''/t<x>'' = node_String sampleExt ''/t<x>''"
    by (simp add: sampleExt_def)
  show "sample_predicate_String (ImmutableP ''p'') = predicate_String sampleExt (ImmutableP ''p'')"
    by (simp add: sampleExt_def)
  show "sample_literal_String ''v'' = Object_String sampleExt (NewLiteralObject (Some ''v''))"
    by (simp add: sampleExt_def Object_String_def NewLiteralObject_def)
  show "TrimSpace (Triple_String sampleExt sampleTriple) = Triple_String sampleExt sampleTriple"
    by code_simp
  show "''/t<x>'' \<noteq> []"
    by simp
  show "pSplit_FindIndex (Triple_String sampleExt sampleTriple)
          = Some (length ''/t<x>'' - 1, length ''/t<x>'' + 2)"
    by code_simp
  show "oSplit_FindIndex (Triple_String sampleExt sampleTriple)
          = Some (length ''/t<x>'' + length (sample_predicate_String (ImmutableP ''p'')),
                  length ''/t<x>'' + length (sample_predicate_String (ImmutableP ''p'')) + 3)"
    by code_simp
  show "node_Parse sampleExt ''/t<x>'' = Inr ''/t<x>''"
    by code_simp
  show "predicate_Parse sampleExt (sample_predicate_String (ImmutableP ''p''))
          = Inr (ImmutableP ''p'')"
    by code_simp
  show "ParseObject sampleExt (sample_literal_String ''v'') sampleBuilder
          = Inr (NewLiteralObject (Some ''v''))"
    by code_simp
qed

text \<open>
  C3 as stated fails: a predicate whose ID contains \<open>] /\<close> parses back from its own text, but
  in the line of a triple the object pattern matches first inside that ID, and the predicate
  text is cut short.
\<close>

theorem ParseTriple_roundtrip_counterexample:
  "node_Parse sampleExt ''/t<x>'' = Inr ''/t<x>''
   \<and> predicate_Parse sampleExt (predicate_String sampleExt (ImmutableP ''a] /b''))
       = Inr (ImmutableP ''a] /b'')
   \<and> ParseObject sampleExt ''/u<y>'' sampleBuilder = Inr (NewNodeObject (Some ''/u<y>''))
   \<and> NewTriple sampleExt (Some ''/t<x>'') (Some (ImmutableP ''a] /b''))
         (Some (NewNodeObject (Some ''/u<y>''))) = Inr delimiterTriple
   \<and> ParseTriple sampleExt (Triple_String sampleExt delimiterTriple) sampleBuilder
       = Inl (SubParseError
               (''triple.Parse failed to parse predicate '' @ [dquote] @ ''a]''
                @ '' with error predicate.Parse: invalid predicate '' @ [dquote] @ ''a]''))
   \<and> ParseTriple sampleExt (Triple_String sampleExt delimiterTriple) sampleBuilder
       \<noteq> Inr delimiterTriple"
  by code_simp

subsection \<open>Reification\<close>

text \<open>The role name reaches the constructor for an immutable predicate only.\<close>

lemma rp_Temporal: "rp X ident (Some (TemporalP i ta)) = predicate_NewTemporal X i ta"
  by (simp add: rp_def)

lemma rp_Immutable: "rp X ident (Some (ImmutableP i)) = predicate_NewImmutable X ident"
  by (simp add: rp_def)

text \<open>
  C1 at a triple with a temporal predicate: the three role predicates are all the predicate of
  the triple itself, with its ID and anchor, and none carries the name of its role.
\<close>

theorem Reify_temporal_roles:
  "snd (Reify sampleExt ''/_<b1>'' temporalTriple)
     = Inr ([Some temporalTriple,
             Some \<lparr>t_s = Some ''/_<b1>'', t_p = Some (TemporalP ''p'' 42),
                   t_o = Some (NewNodeObject (Some ''/t<x>''))\<rparr>,
             Some \<lparr>t_s = Some ''/_<b1>'', t_p = Some (TemporalP ''p'' 42),
                   t_o = Some (NewPredicateObject (Some (TemporalP ''p'' 42)))\<rparr>,
             Some \<lparr>t_s = Some ''/_<b1>'', t_p = Some (TemporalP ''p'' 42),
                   t_o = Some (NewNodeObject (Some ''/u<y>''))\<rparr>],
            ''/_<b1>'')"
  by code_simp

lemma object_eqI:
  "o_n a = o_n b \<Longrightarrow> o_p a = o_p b \<Longrightarrow> o_l a = o_l b \<Longrightarrow> (a :: ('n, 'l) Object) = b"
  by simp

text \<open>
  C2. For a triple with subject, predicate and object present and exactly one variant in the
  object, a successful \<open>Reify\<close> returns the blank node and four triples: the triple itself,
  then three triples with the blank node as subject, a role predicate, and as object the
  subject as a node object, the predicate as a predicate object, and the object of the triple.
\<close>

theorem Reify_shape:
  assumes ts: "t_s t = Some sv" and tp: "t_p t = Some pv" and to: "t_o t = Some ov"
    and ex: "exactly_one_of ov"
    and r: "snd (Reify X bn t) = Inr (res, b')"
  shows "length res = 4 \<and> b' = bn
    \<and> (\<exists>p1 p2 p3.
          rp X ''_subject'' (Some pv) = Inr p1 \<and> rp X ''_predicate'' (Some pv) = Inr p2
          \<and> rp X ''_object'' (Some pv) = Inr p3
          \<and> res = [Some t,
                   Some \<lparr>t_s = Some bn, t_p = Some p1, t_o = Some (NewNodeObject (Some sv))\<rparr>,
                   Some \<lparr>t_s = Some bn, t_p = Some p2,
                         t_o = Some (NewPredicateObject (Some pv))\<rparr>,
                   Some \<lparr>t_s = Some bn, t_p = Some p3, t_o = Some ov\<rparr>])"
proof -
  obtain p1 where p1: "rp X ''_subject'' (Some pv) = Inr p1"
    using r by (cases "rp X ''_subject'' (Some pv)") (simp_all add: Reify_def ebind_def tp)
  obtain p2 where p2: "rp X ''_predicate'' (Some pv) = Inr p2"
    using r p1 by (cases "rp X ''_predicate'' (Some pv)") (simp_all add: Reify_def ebind_def tp)
  have one: "(o_n ov \<noteq> None \<and> o_p ov = None \<and> o_l ov = None) \<or>
     (o_n ov = None \<and> o_p ov \<noteq> None \<and> o_l ov = None) \<or>
     (o_n ov = None \<and> o_p ov = None \<and> o_l ov \<noteq> None)"
    using ex by (simp add: exactly_one_of_def)
  obtain p3 where p3: "rp X ''_object'' (Some pv) = Inr p3"
    using r p1 p2 one
    by (cases "rp X ''_object'' (Some pv)")
      (auto simp add: Reify_def ebind_def tp to Let_def)
  have ob: "(if o_p ov \<noteq> None then NewPredicateObject (o_p ov)
             else if o_n ov \<noteq> None then NewNodeObject (o_n ov)
             else NewLiteralObject (o_l ov)) = ov"
    using one
    by (auto simp: NewPredicateObject_def NewNodeObject_def NewLiteralObject_def
        intro!: object_eqI)
  have res: "snd (Reify X bn t)
     = Inr ([Some t,
             Some \<lparr>t_s = Some bn, t_p = Some p1, t_o = Some (NewNodeObject (Some sv))\<rparr>,
             Some \<lparr>t_s = Some bn, t_p = Some p2, t_o = Some (NewPredicateObject (Some pv))\<rparr>,
             Some \<lparr>t_s = Some bn, t_p = Some p3,
                   t_o = Some (if o_p ov \<noteq> None then NewPredicateObject (o_p ov)
                               else if o_n ov \<noteq> None then NewNodeObject (o_n ov)
                               else NewLiteralObject (o_l ov))\<rparr>], bn)"
    using one
    by (auto simp: Reify_def ebind_def ts tp to p1 p2 p3 Let_def NewTriple_def ptr_def)
  show ?thesis
    using r p1 p2 p3 unfolding res ob by auto
qed

text \<open>C2 at a triple of the instance with an immutable predicate and a literal object.\<close>

theorem Reify_shape_witness:
  "t_s sampleTriple = Some ''/t<x>'' \<and> t_p sampleTriple = Some (ImmutableP ''p'')
   \<and> t_o sampleTriple = Some (NewLiteralObject (Some ''v''))
   \<and> exactly_one_of (NewLiteralObject (Some ''v'') :: (string, string) Object)
   \<and> snd (Reify sampleExt ''/_<b1>'' sampleTriple)
       = Inr ([Some sampleTriple,
               Some \<lparr>t_s = Some ''/_<b1>'', t_p = Some (ImmutableP ''_subject''),
                     t_o = Some (NewNodeObject (Some ''/t<x>''))\<rparr>,
               Some \<lparr>t_s = Some ''/_<b1>'', t_p = Some (ImmutableP ''_predicate''),
                     t_o = Some (NewPredicateObject (Some (ImmutableP ''p'')))\<rparr>,
               Some \<lparr>t_s = Some ''/_<b1>'', t_p = Some (ImmutableP ''_object''),
                     t_o = Some (NewLiteralObject (Some ''v''))\<rparr>],
              ''/_<b1>'')
   \<and> length [Some sampleTriple,
               Some \<lparr>t_s = Some ''/_<b1>'', t_p = Some (ImmutableP ''_subject''),
                     t_o = Some (NewNodeObject (Some ''/t<x>''))\<rparr>,
               Some \<lparr>t_s = Some ''/_<b1>'', t_p = Some (ImmutableP ''_predicate''),
                     t_o = Some (NewPredicateObject (Some (ImmutableP ''p'')))\<rparr>,
               Some \<lparr>t_s = Some ''/_<b1>'', t_p = Some (ImmutableP ''_object''),
                     t_o = Some (NewLiteralObject (Some ''v''))\<rparr>] = 4"
proof -
  have a: "t_s sampleTriple = Some ''/t<x>''" and b: "t_p sampleTriple = Some (ImmutableP ''p'')"
    and c: "t_o sampleTriple = Some (NewLiteralObject (Some ''v''))"
    by (simp_all add: sampleTriple_def)
  have d: "exactly_one_of (NewLiteralObject (Some ''v'') :: (string, string) Object)"
    by (simp add: exactly_one_of_def NewLiteralObject_def)
  have e: "snd (Reify sampleExt ''/_<b1>'' sampleTriple)
       = Inr ([Some sampleTriple,
               Some \<lparr>t_s = Some ''/_<b1>'', t_p = Some (ImmutableP ''_subject''),
                     t_o = Some (NewNodeObject (Some ''/t<x>''))\<rparr>,
               Some \<lparr>t_s = Some ''/_<b1>'', t_p = Some (ImmutableP ''_predicate''),
                     t_o = Some (NewPredicateObject (Some (ImmutableP ''p'')))\<rparr>,
               Some \<lparr>t_s = Some ''/_<b1>'', t_p = Some (ImmutableP ''_object''),
                     t_o = Some (NewLiteralObject (Some ''v''))\<rparr>],
              ''/_<b1>'')"
    by code_simp
  show ?thesis
    using a b c d e Reify_shape [OF a b c d e] by simp
qed

section \<open>Properties of package semantic\<close>

subsection \<open>Sorting by specificity\<close>

lemma Specificity_range: "0 \<le> Specificity c \<and> Specificity c \<le> 3"
  by (simp add: Specificity_def Let_def)

lemma Specificity_count:
  "Specificity c = int (length (filter (\<lambda>b. b) [c_S c \<noteq> None, c_P c \<noteq> None, c_O c \<noteq> None]))"
  by (simp add: Specificity_def Let_def)

lemma deref_allocated: "allocated h r \<Longrightarrow> deref h r = Inr (clauseCells h ! the r)"
  by (cases r) (simp_all add: allocated_def deref_def)

lemma Less_allocated:
  assumes "list_all (allocated h) xs" and "i < length xs" and "j < length xs"
  shows "bySpecificity_Less h xs i j = Inr (spec_of h (xs ! i) > spec_of h (xs ! j))"
proof -
  have "allocated h (xs ! i)" and "allocated h (xs ! j)"
    using assms by (simp_all add: list_all_length)
  then show ?thesis
    using assms(2,3)
    by (simp add: bySpecificity_Less_def index_ptr_def ebind_def deref_allocated spec_of_def)
qed

lemma Swap_in_range:
  "i < length xs \<Longrightarrow> j < length xs
    \<Longrightarrow> bySpecificity_Swap xs i j = Inr (xs[i := xs ! j, j := xs ! i])"
  by (simp add: bySpecificity_Swap_def index_ptr_def ebind_def)

lemma swap_adjacent:
  "(pre @ y # x # post)[Suc (length pre) := y, length pre := x] = pre @ x # y # post"
  by (simp add: list_update_append)

lemma insertionInner_sorted:
  assumes "list_all (allocated h) (pre @ x # post)"
    and "sorted_wrt (\<lambda>a b. spec_of h a \<ge> spec_of h b) pre"
  shows "\<exists>ys. insertionInner (bySpecificity_Less h) bySpecificity_Swap 0 (length pre)
                 (pre @ x # post) = Inr (ys @ post)
              \<and> mset ys = mset (pre @ [x])
              \<and> sorted_wrt (\<lambda>a b. spec_of h a \<ge> spec_of h b) ys"
  using assms
proof (induction pre arbitrary: post rule: rev_induct)
  case Nil
  show ?case by (rule exI [of _ "[x]"]) simp
next
  case (snoc y pre)
  let ?st = "pre @ y # x # post"
  have st: "(pre @ [y]) @ x # post = ?st" by simp
  have all: "list_all (allocated h) ?st" using snoc.prems(1) by simp
  have less: "bySpecificity_Less h ?st (Suc (length pre)) (length pre)
                = Inr (spec_of h x > spec_of h y)"
    using Less_allocated [OF all, of "Suc (length pre)" "length pre"]
    by (simp add: nth_append)
  have sorted_pre: "sorted_wrt (\<lambda>a b. spec_of h a \<ge> spec_of h b) pre"
    and above: "\<forall>a\<in>set pre. spec_of h a \<ge> spec_of h y"
    using snoc.prems(2) by (simp_all add: sorted_wrt_append)
  show ?case
  proof (cases "spec_of h x > spec_of h y")
    case True
    have swap: "bySpecificity_Swap ?st (Suc (length pre)) (length pre) = Inr (pre @ x # y # post)"
      using Swap_in_range [of "Suc (length pre)" ?st "length pre"]
      by (simp add: nth_append swap_adjacent)
    have "list_all (allocated h) (pre @ x # y # post)" using all by simp
    from snoc.IH [OF this sorted_pre]
    obtain ys where ys: "insertionInner (bySpecificity_Less h) bySpecificity_Swap 0 (length pre)
                 (pre @ x # y # post) = Inr (ys @ y # post)"
      and m: "mset ys = mset (pre @ [x])"
      and s: "sorted_wrt (\<lambda>a b. spec_of h a \<ge> spec_of h b) ys"
      by blast
    have "set ys = set pre \<union> {x}"
      using m by (metis Un_insert_right append_Nil2 list.simps(15) mset_eq_setD set_append
          sup_bot.right_neutral)
    then have "\<forall>a\<in>set ys. spec_of h a \<ge> spec_of h y"
      using above True by auto
    then have s': "sorted_wrt (\<lambda>a b. spec_of h a \<ge> spec_of h b) (ys @ [y])"
      using s by (simp add: sorted_wrt_append)
    have run: "insertionInner (bySpecificity_Less h) bySpecificity_Swap 0 (length (pre @ [y]))
                 ((pre @ [y]) @ x # post) = Inr ((ys @ [y]) @ post)"
      using True by (simp add: st less swap ebind_def ys)
    show ?thesis
      using run s' m by (intro exI [of _ "ys @ [y]"]) simp
  next
    case False
    have run: "insertionInner (bySpecificity_Less h) bySpecificity_Swap 0 (length (pre @ [y]))
                 ((pre @ [y]) @ x # post) = Inr ((pre @ [y, x]) @ post)"
      using False by (simp add: st less ebind_def)
    have "\<forall>a\<in>set pre. spec_of h a \<ge> spec_of h x"
      using above False by force
    then have s': "sorted_wrt (\<lambda>a b. spec_of h a \<ge> spec_of h b) (pre @ [y, x])"
      using sorted_pre above False by (simp add: sorted_wrt_append)
    show ?thesis
      using run s' by (intro exI [of _ "pre @ [y, x]"]) simp
  qed
qed

lemma insertionOuter_sorted:
  assumes "list_all (allocated h) zs" and "i + k = length zs"
    and "sorted_wrt (\<lambda>a b. spec_of h a \<ge> spec_of h b) (take i zs)"
  shows "\<exists>ys. insertionOuter (bySpecificity_Less h) bySpecificity_Swap 0 k i zs = Inr ys
              \<and> mset ys = mset zs
              \<and> sorted_wrt (\<lambda>a b. spec_of h a \<ge> spec_of h b) ys"
  using assms
proof (induction k arbitrary: i zs)
  case 0
  then show ?case by simp
next
  case (Suc k)
  have i: "i < length zs" using Suc.prems(2) by simp
  have split: "zs = take i zs @ zs ! i # drop (Suc i) zs"
    using i by (rule id_take_nth_drop)
  have all: "list_all (allocated h) (take i zs @ zs ! i # drop (Suc i) zs)"
    using Suc.prems(1) split by simp
  from insertionInner_sorted [OF all Suc.prems(3)]
  obtain ys where run: "insertionInner (bySpecificity_Less h) bySpecificity_Swap 0
        (length (take i zs)) (take i zs @ zs ! i # drop (Suc i) zs) = Inr (ys @ drop (Suc i) zs)"
    and m: "mset ys = mset (take i zs @ [zs ! i])"
    and s: "sorted_wrt (\<lambda>a b. spec_of h a \<ge> spec_of h b) ys"
    by blast
  have run': "insertionInner (bySpecificity_Less h) bySpecificity_Swap 0 i zs
                = Inr (ys @ drop (Suc i) zs)"
    using run split i by simp
  have len: "length ys = Suc i"
    using m i by (metis length_append_singleton length_take min.absorb2 less_imp_le_nat
        size_mset)
  let ?zs = "ys @ drop (Suc i) zs"
  have mz: "mset ?zs = mset zs"
    using m split by (metis append.assoc append_Cons append_Nil mset_append)
  then have "set ?zs = set zs" by (rule mset_eq_setD)
  then have all': "list_all (allocated h) ?zs"
    using Suc.prems(1) by (simp only: list_all_iff)
  have l': "Suc i + k = length ?zs"
    using Suc.prems(2) len by simp
  have t': "sorted_wrt (\<lambda>a b. spec_of h a \<ge> spec_of h b) (take (Suc i) ?zs)"
    using s len by simp
  from Suc.IH [OF all' l' t']
  obtain ws where "insertionOuter (bySpecificity_Less h) bySpecificity_Swap 0 k (Suc i) ?zs
                     = Inr ws"
    and "mset ws = mset ?zs" and "sorted_wrt (\<lambda>a b. spec_of h a \<ge> spec_of h b) ws"
    by blast
  then show ?case
    using run' mz by (intro exI [of _ ws]) (simp add: ebind_def)
qed

lemma sort_Sort_sorted:
  assumes "list_all (allocated h) xs"
  shows "\<exists>ys. sort_Sort bySpecificity_Len (bySpecificity_Less h) bySpecificity_Swap xs = Inr ys
              \<and> mset ys = mset xs
              \<and> sorted_wrt (\<lambda>a b. spec_of h a \<ge> spec_of h b) ys"
proof (cases xs)
  case Nil
  then show ?thesis
    by (simp add: sort_Sort_def insertionSort_def bySpecificity_Len_def)
next
  case (Cons x rest)
  have "1 + (length xs - 1) = length xs" using Cons by simp
  moreover have "sorted_wrt (\<lambda>a b. spec_of h a \<ge> spec_of h b) (take 1 xs)"
    using Cons by simp
  ultimately show ?thesis
    using insertionOuter_sorted [OF assms, of 1 "length xs - 1"]
    by (simp add: sort_Sort_def insertionSort_def bySpecificity_Len_def)
qed

lemma elements_store:
  assumes "valid_slice h sl" and "length ys = s_len sl"
  shows "elements (store_elements h sl ys) sl = ys"
  using assms
  by (auto simp: valid_slice_def elements_def store_elements_def)

lemma clauseCells_store: "clauseCells (store_elements h sl ys) = clauseCells h"
  by (simp add: store_elements_def)

lemma spec_of_cong: "clauseCells h' = clauseCells h \<Longrightarrow> spec_of h' = spec_of h"
  by (rule ext) (simp add: spec_of_def)

lemma Sorted_result:
  assumes "committed (s, h)"
  shows "\<exists>h'. SortedGraphPatternClauses (s, h) = Inr (pattern s, s, h')
              \<and> clauseCells h' = clauseCells h
              \<and> mset (elements h' (pattern s)) = mset (elements h (pattern s))
              \<and> non_increasing (specificities h' (pattern s))"
proof -
  have vs: "valid_slice h (pattern s)" and al: "list_all (allocated h) (elements h (pattern s))"
    using assms by (simp_all add: committed_def)
  from sort_Sort_sorted [OF al]
  obtain ys where run: "sort_Sort bySpecificity_Len (bySpecificity_Less h) bySpecificity_Swap
                          (elements h (pattern s)) = Inr ys"
    and m: "mset ys = mset (elements h (pattern s))"
    and srt: "sorted_wrt (\<lambda>a b. spec_of h a \<ge> spec_of h b) ys"
    by blast
  have "length (elements h (pattern s)) = s_len (pattern s)"
    using vs by (auto simp: valid_slice_def elements_def)
  then have len: "length ys = s_len (pattern s)"
    using m by (metis size_mset)
  let ?h = "store_elements h (pattern s) ys"
  have el: "elements ?h (pattern s) = ys"
    using vs len by (rule elements_store)
  have sp: "spec_of ?h = spec_of h"
    by (rule spec_of_cong) (rule clauseCells_store)
  have "non_increasing (specificities ?h (pattern s))"
    using srt by (simp add: non_increasing_def specificities_def el sp sorted_wrt_map)
  then show ?thesis
    using run m el
    by (intro exI [of _ ?h])
      (simp add: SortedGraphPatternClauses_def Let_def ebind_def clauseCells_store)
qed

text \<open>
  C8. In a state where every pointer of the pattern refers to a clause, the call returns, and
  the specificities of the clauses it returns, each between 0 and 3, never increase along the
  sequence; the sequence holds the committed clauses, each as often as before, and no clause
  has changed.
\<close>

theorem Sorted_non_increasing:
  assumes "committed (s, h)"
  shows "\<exists>res s' h'. SortedGraphPatternClauses (s, h) = Inr (res, s', h')
           \<and> non_increasing (specificities h' res)
           \<and> list_all (\<lambda>v. 0 \<le> v \<and> v \<le> 3) (specificities h' res)
           \<and> clauseCells h' = clauseCells h
           \<and> mset (elements h' res) = mset (elements h (pattern s))"
proof -
  from Sorted_result [OF assms] obtain h' where
    r: "SortedGraphPatternClauses (s, h) = Inr (pattern s, s, h')
        \<and> clauseCells h' = clauseCells h
        \<and> mset (elements h' (pattern s)) = mset (elements h (pattern s))
        \<and> non_increasing (specificities h' (pattern s))"
    by blast
  have "list_all (\<lambda>v. 0 \<le> v \<and> v \<le> 3) (specificities h' (pattern s))"
    by (simp add: specificities_def spec_of_def list_all_iff Specificity_range)
  with r show ?thesis by blast
qed

text \<open>
  C8 at the statement of the instance: committed with the specificities 0, 3, 1, 2 and returned
  with 3, 2, 1, 0.
\<close>

theorem Sorted_non_increasing_witness:
  "committed sampleStatement
   \<and> specificities (snd sampleStatement) (pattern (fst sampleStatement)) = [0, 3, 1, 2]
   \<and> (\<exists>res s' h'. SortedGraphPatternClauses sampleStatement = Inr (res, s', h')
         \<and> non_increasing (specificities h' res)
         \<and> specificities h' res = [3, 2, 1, 0])"
proof -
  have c: "committed (fst sampleStatement, snd sampleStatement)"
    by code_simp
  have v: "specificities (snd sampleStatement) (pattern (fst sampleStatement)) = [0, 3, 1, 2]"
    by code_simp
  have e: "case SortedGraphPatternClauses sampleStatement of
             Inl e \<Rightarrow> False
           | Inr (res, s', h') \<Rightarrow> specificities h' res = [3, 2, 1, 0]"
    by code_simp
  show ?thesis
    using c v e Sorted_non_increasing [OF c]
    by (auto split: sum.splits)
qed

text \<open>
  C10. The header the call returns is the pattern of the statement, over the same array: after
  the call \<open>GraphPatternClauses\<close> lists the same clauses by descending specificity, and
  no longer in the order of the commits unless that order was descending already.
\<close>

theorem Sorted_in_place:
  assumes "committed (s, h)"
    and "SortedGraphPatternClauses (s, h) = Inr (res, s', h')"
  shows "GraphPatternClauses s' = res
    \<and> non_increasing (specificities h' (GraphPatternClauses s'))
    \<and> clauseCells h' = clauseCells h
    \<and> mset (elements h' (GraphPatternClauses s')) = mset (elements h (GraphPatternClauses s))
    \<and> (\<not> non_increasing (specificities h (GraphPatternClauses s))
        \<longrightarrow> elements h' (GraphPatternClauses s') \<noteq> elements h (GraphPatternClauses s))"
proof -
  from Sorted_result [OF assms(1)] assms(2)
  have r: "res = pattern s" "s' = s" "clauseCells h' = clauseCells h"
    "mset (elements h' (pattern s)) = mset (elements h (pattern s))"
    "non_increasing (specificities h' (pattern s))"
    by auto
  have sp: "spec_of h' = spec_of h"
    using r(3) by (rule spec_of_cong)
  have "elements h' (pattern s) = elements h (pattern s)
          \<Longrightarrow> non_increasing (specificities h (pattern s))"
    using r(5) by (simp add: specificities_def sp)
  then show ?thesis
    using r by (auto simp: GraphPatternClauses_def)
qed

text \<open>
  C10 at the statement of the instance: the pattern lists the clauses 0, 1, 2, 3 before the
  call and 1, 3, 2, 0 after it.
\<close>

theorem Sorted_in_place_witness:
  "committed sampleStatement
   \<and> elements (snd sampleStatement) (GraphPatternClauses (fst sampleStatement))
       = [Some 0, Some 1, Some 2, Some 3]
   \<and> (\<exists>res s' h'. SortedGraphPatternClauses sampleStatement = Inr (res, s', h')
         \<and> GraphPatternClauses s' = res
         \<and> elements h' (GraphPatternClauses s') = [Some 1, Some 3, Some 2, Some 0]
         \<and> non_increasing (specificities h' (GraphPatternClauses s')))"
proof -
  have c: "committed (fst sampleStatement, snd sampleStatement)"
    by code_simp
  have v: "elements (snd sampleStatement) (GraphPatternClauses (fst sampleStatement))
       = [Some 0, Some 1, Some 2, Some 3]"
    by code_simp
  obtain res s' h' where
    e: "SortedGraphPatternClauses (fst sampleStatement, snd sampleStatement) = Inr (res, s', h')"
    using Sorted_result [OF c] by blast
  have f: "case SortedGraphPatternClauses sampleStatement of
             Inl e \<Rightarrow> False
           | Inr (res, s', h') \<Rightarrow>
               elements h' (GraphPatternClauses s') = [Some 1, Some 3, Some 2, Some 0]"
    by code_simp
  show ?thesis
    using c v e f Sorted_in_place [OF c e]
    by (auto split: sum.splits)
qed

subsection \<open>Committing the working clause\<close>

lemma elements_length: "valid_slice h sl \<Longrightarrow> length (elements h sl) = s_len sl"
  by (auto simp: valid_slice_def elements_def)

lemma elements_clauseCells_update [simp]:
  "elements (h\<lparr>clauseCells := cs\<rparr>) sl = elements h sl"
  by (simp add: elements_def)

lemma valid_ref_cong: "clauseCells h' = clauseCells h \<Longrightarrow> valid_ref h' = valid_ref h"
  by (rule ext) (simp add: valid_ref_def split: option.splits)

lemma valid_ref_Some: "valid_ref h (Some a) \<longleftrightarrow> a < length (clauseCells h)"
  by (simp add: valid_ref_def)

lemma append_ptr_elements:
  assumes "valid_slice h sl" and "append_ptr grow sl v h = (sl', h')"
  shows "elements h' sl' = elements h sl @ [v] \<and> clauseCells h' = clauseCells h
         \<and> valid_slice h' sl'"
proof (cases "s_len sl < s_cap sl \<and> s_arr sl < length (arrayCells h)")
  case True
  then have cap: "s_cap sl = length (arrayCells h ! s_arr sl)"
    using assms(1) by (auto simp: valid_slice_def)
  have sl': "sl' = sl\<lparr>s_len := s_len sl + 1\<rparr>"
    and h': "h' = h\<lparr>arrayCells :=
                (arrayCells h)[s_arr sl := (arrayCells h ! s_arr sl)[s_len sl := v]]\<rparr>"
    using assms(2) True by (simp_all add: append_ptr_def)
  show ?thesis
    using True cap
    by (simp add: sl' h' elements_def valid_slice_def take_Suc_conv_app_nth)
next
  case False
  let ?cap = "max (s_len sl + 1) (grow (s_cap sl))"
  have sl': "sl' = \<lparr>s_arr = length (arrayCells h), s_len = s_len sl + 1, s_cap = ?cap\<rparr>"
    and h': "h' = h\<lparr>arrayCells := arrayCells h
                    @ [elements h sl @ [v] @ replicate (?cap - (s_len sl + 1)) None]\<rparr>"
    using assms(2) False by (simp_all add: append_ptr_def Let_def)
  have len: "length (elements h sl) = s_len sl"
    using assms(1) by (rule elements_length)
  show ?thesis
    using len by (simp add: sl' h' elements_def valid_slice_def)
qed

text \<open>
  C9. After a commit the pattern lists the former clauses and then the clause that was the
  working clause, and the new working clause is a clause the pattern does not list. An
  assignment to fields of the new working clause succeeds and leaves the pattern and every
  clause the pattern lists as it was, which is also as it was before the commit.
\<close>

theorem commit_isolation:
  assumes valid: "valid_state (s, h)"
    and add: "AddWorkingGrpahClause grow (s, h) = (s1, h1)"
  shows "elements h1 (GraphPatternClauses s1) = elements h (GraphPatternClauses s) @ [WorkingClause s]
    \<and> WorkingClause s1 \<notin> set (elements h1 (GraphPatternClauses s1))
    \<and> (\<exists>h2. mutate (WorkingClause s1) f h1 = Inr h2
          \<and> elements h2 (GraphPatternClauses s1) = elements h1 (GraphPatternClauses s1)
          \<and> (\<forall>a. Some a \<in> set (elements h1 (GraphPatternClauses s1))
                \<longrightarrow> clauseCells h2 ! a = clauseCells h1 ! a
                    \<and> clauseCells h1 ! a = clauseCells h ! a))"
proof -
  obtain sl h' where ap: "append_ptr grow (pattern s) (workingClause s) h = (sl, h')"
    by (cases "append_ptr grow (pattern s) (workingClause s) h")
  have vs: "valid_slice h (pattern s)"
    and refs: "list_all (valid_ref h) (elements h (pattern s))"
    and wref: "valid_ref h (workingClause s)"
    using valid by (simp_all add: valid_state_def)
  have el: "elements h' sl = elements h (pattern s) @ [workingClause s]"
    and cc: "clauseCells h' = clauseCells h"
    using append_ptr_elements [OF vs ap] by simp_all
  have s1: "s1 = s\<lparr>pattern := sl, workingClause := Some (length (clauseCells h))\<rparr>"
    and h1: "h1 = h'\<lparr>clauseCells := clauseCells h @ [emptyClause]\<rparr>"
    using add by (simp_all add: AddWorkingGrpahClause_def ap ResetWorkingGraphClause_def cc)
  have el1: "elements h1 (pattern s1) = elements h (pattern s) @ [workingClause s]"
    using el by (simp add: s1 h1)
  have below: "\<forall>a. Some a \<in> set (elements h1 (pattern s1)) \<longrightarrow> a < length (clauseCells h)"
  proof (intro allI impI)
    fix a
    assume "Some a \<in> set (elements h1 (pattern s1))"
    then have "Some a \<in> set (elements h (pattern s)) \<or> workingClause s = Some a"
      by (auto simp: el1)
    then have "valid_ref h (Some a)"
      using refs wref by (auto simp: list_all_iff)
    then show "a < length (clauseCells h)"
      by (simp add: valid_ref_Some)
  qed
  let ?r = "length (clauseCells h)"
  let ?h2 = "h1\<lparr>clauseCells := (clauseCells h1)[?r := f (clauseCells h1 ! ?r)]\<rparr>"
  have m: "mutate (WorkingClause s1) f h1 = Inr ?h2"
    by (simp add: mutate_def WorkingClause_def s1 h1 deref_def ebind_def)
  have e2: "elements ?h2 (pattern s1) = elements h1 (pattern s1)"
    by simp
  have frame: "\<forall>a. Some a \<in> set (elements h1 (pattern s1))
                \<longrightarrow> clauseCells ?h2 ! a = clauseCells h1 ! a
                    \<and> clauseCells h1 ! a = clauseCells h ! a"
    using below by (auto simp: h1 nth_append)
  have fresh: "WorkingClause s1 \<notin> set (elements h1 (pattern s1))"
    using below by (auto simp: WorkingClause_def s1)
  show ?thesis
    unfolding GraphPatternClauses_def
    using el1 fresh m e2 frame by (simp add: WorkingClause_def)
qed

text \<open>
  The states that the operations reach from the empty statement satisfy the hypothesis of the
  theorem.
\<close>

lemma valid_state_empty: "valid_state (emptyStatement, emptyHeap)"
  by (simp add: valid_state_def emptyStatement_def emptyHeap_def valid_slice_def nilSlice_def
      elements_def valid_ref_def)

lemma valid_state_Reset:
  assumes "valid_state (s, h)"
  shows "valid_state (ResetWorkingGraphClause (s, h))"
  using assms
  by (auto simp: valid_state_def ResetWorkingGraphClause_def valid_slice_def elements_def
      valid_ref_def list_all_iff split: option.splits)

lemma valid_state_mutate:
  assumes "valid_state (s, h)" and "mutate r f h = Inr h'"
  shows "valid_state (s, h')"
  using assms
  by (auto simp: valid_state_def mutate_def ebind_def deref_def valid_slice_def elements_def
      valid_ref_def list_all_iff split: option.splits if_splits)

lemma valid_state_Add:
  assumes "valid_state (s, h)"
  shows "valid_state (AddWorkingGrpahClause grow (s, h))"
proof -
  obtain sl h' where ap: "append_ptr grow (pattern s) (workingClause s) h = (sl, h')"
    by (cases "append_ptr grow (pattern s) (workingClause s) h")
  have vs: "valid_slice h (pattern s)"
    and refs: "list_all (valid_ref h) (elements h (pattern s))"
    and wref: "valid_ref h (workingClause s)"
    using assms by (simp_all add: valid_state_def)
  have el: "elements h' sl = elements h (pattern s) @ [workingClause s]"
    and cc: "clauseCells h' = clauseCells h" and vs': "valid_slice h' sl"
    using append_ptr_elements [OF vs ap] by simp_all
  have "valid_state (s\<lparr>pattern := sl\<rparr>, h')"
    using refs wref vs' by (simp add: valid_state_def el valid_ref_cong [OF cc])
  then show ?thesis
    unfolding AddWorkingGrpahClause_def using ap valid_state_Reset by simp
qed

text \<open>
  So do they satisfy the hypothesis of the sorting theorems, when every commit follows a reset
  of the working clause.
\<close>

lemma allocated_cong: "length (clauseCells h') = length (clauseCells h) \<Longrightarrow> allocated h' = allocated h"
  by (rule ext) (simp add: allocated_def split: option.splits)

lemma allocated_grow:
  "allocated h r \<Longrightarrow> allocated (h\<lparr>clauseCells := clauseCells h @ cs\<rparr>) r"
  by (simp add: allocated_def split: option.splits)

lemma committed_empty: "committed (emptyStatement, emptyHeap)"
  by (simp add: committed_def emptyStatement_def emptyHeap_def valid_slice_def nilSlice_def
      elements_def)

lemma committed_Reset:
  assumes "committed (s, h)"
  shows "committed (ResetWorkingGraphClause (s, h))"
    and "allocated (snd (ResetWorkingGraphClause (s, h)))
           (WorkingClause (fst (ResetWorkingGraphClause (s, h))))"
  using assms
  by (auto simp: committed_def ResetWorkingGraphClause_def valid_slice_def list_all_iff
      allocated_def WorkingClause_def split: option.splits)

lemma committed_mutate:
  assumes "committed (s, h)" and "mutate r f h = Inr h'"
  shows "committed (s, h')"
proof -
  have h': "h' = h\<lparr>clauseCells := (clauseCells h)[the r := f (clauseCells h ! the r)]\<rparr>"
    using assms(2) by (auto simp: mutate_def ebind_def deref_def split: option.splits if_splits)
  have "allocated h' = allocated h"
    by (rule allocated_cong) (simp add: h')
  then show ?thesis
    using assms(1) by (simp add: committed_def h' valid_slice_def)
qed

lemma committed_Add:
  assumes "committed (s, h)" and "allocated h (WorkingClause s)"
  shows "committed (AddWorkingGrpahClause grow (s, h))"
proof -
  obtain sl h' where ap: "append_ptr grow (pattern s) (workingClause s) h = (sl, h')"
    by (cases "append_ptr grow (pattern s) (workingClause s) h")
  have vs: "valid_slice h (pattern s)"
    and al: "list_all (allocated h) (elements h (pattern s))"
    using assms(1) by (simp_all add: committed_def)
  have el: "elements h' sl = elements h (pattern s) @ [workingClause s]"
    and cc: "clauseCells h' = clauseCells h" and vs': "valid_slice h' sl"
    using append_ptr_elements [OF vs ap] by simp_all
  have "allocated h' = allocated h"
    by (rule allocated_cong) (simp add: cc)
  then have "committed (s\<lparr>pattern := sl\<rparr>, h')"
    using al assms(2) vs' by (simp add: committed_def el WorkingClause_def)
  then show ?thesis
    unfolding AddWorkingGrpahClause_def using ap committed_Reset(1) by simp
qed

text \<open>
  C9 at the statement of the instance: a fifth clause is committed, then the subject of the new
  working clause (clause 5) is set; clause 4 keeps its value and clause 5 changes.
\<close>

theorem commit_isolation_witness:
  "valid_state sampleStatement
   \<and> (\<exists>s1 h1 h2. AddWorkingGrpahClause doubling sampleStatement = (s1, h1)
        \<and> mutate (WorkingClause s1) (\<lambda>c. c\<lparr>c_S := Some ''/t<x>''\<rparr>) h1 = Inr h2
        \<and> elements h1 (GraphPatternClauses s1)
            = [Some 0, Some 1, Some 2, Some 3, Some 4]
        \<and> WorkingClause s1 = Some 5
        \<and> Some 4 \<in> set (elements h1 (GraphPatternClauses s1))
        \<and> clauseCells h2 ! 4 = clauseCells h1 ! 4
        \<and> clauseCells h2 ! 5 \<noteq> clauseCells h1 ! 5)"
proof -
  have v: "valid_state (fst sampleStatement, snd sampleStatement)"
    by code_simp
  obtain s1 h1 where a: "AddWorkingGrpahClause doubling (fst sampleStatement, snd sampleStatement)
                           = (s1, h1)"
    by (cases "AddWorkingGrpahClause doubling (fst sampleStatement, snd sampleStatement)")
  have e: "elements (snd (AddWorkingGrpahClause doubling sampleStatement))
             (GraphPatternClauses (fst (AddWorkingGrpahClause doubling sampleStatement)))
           = [Some 0, Some 1, Some 2, Some 3, Some 4]"
    by code_simp
  have w: "WorkingClause (fst (AddWorkingGrpahClause doubling sampleStatement)) = Some 5"
    by code_simp
  have d: "case mutate (WorkingClause (fst (AddWorkingGrpahClause doubling sampleStatement)))
                  (\<lambda>c. c\<lparr>c_S := Some ''/t<x>''\<rparr>)
                  (snd (AddWorkingGrpahClause doubling sampleStatement)) of
             Inl e \<Rightarrow> False
           | Inr h2 \<Rightarrow> clauseCells h2 ! 5
                        \<noteq> clauseCells (snd (AddWorkingGrpahClause doubling sampleStatement)) ! 5"
    by code_simp
  show ?thesis
    using v a e w d commit_isolation [OF v a, of "\<lambda>c. c\<lparr>c_S := Some ''/t<x>''\<rparr>"]
    by (auto split: sum.splits)
qed

end
